theory Spec2Isabelle
  imports Complex_Main
begin

section \<open>Python strings\<close>

text \<open>
  A Python \<open>str\<close> is modelled as a \<^typ>\<open>string\<close>: one \<^typ>\<open>char\<close> per code point, for
  the code points below 256. \<open>len\<close> is \<^const>\<open>length\<close>, slicing is \<^const>\<open>take\<close> and
  \<^const>\<open>drop\<close>.
\<close>

text \<open>Upper-case letters of that range: \<open>A\<close> to \<open>Z\<close>, and 0xC0 to 0xDE without the
  multiplication sign 0xD7. Their lower-case forms lie 32 code points higher.\<close>

definition is_upper :: "char \<Rightarrow> bool" where
  "is_upper c = (let n = (of_char c :: nat) in
     (65 \<le> n \<and> n \<le> 90) \<or> (192 \<le> n \<and> n \<le> 222 \<and> n \<noteq> 215))"

fun lower_char :: "char \<Rightarrow> char" where
  "lower_char (Char b0 b1 b2 b3 b4 b5 b6 b7) =
     (if is_upper (Char b0 b1 b2 b3 b4 b5 b6 b7) then Char b0 b1 b2 b3 b4 True b6 b7
      else Char b0 b1 b2 b3 b4 b5 b6 b7)"

text \<open>\<open>s.lower()\<close>\<close>

definition py_lower :: "string \<Rightarrow> string" where
  "py_lower s = map lower_char s"

text \<open>\<open>s.startswith(p)\<close>\<close>

fun startswith :: "string \<Rightarrow> string \<Rightarrow> bool" where
  "startswith s [] = True"
| "startswith [] (p # ps) = False"
| "startswith (c # cs) (p # ps) = (c = p \<and> startswith cs ps)"

text \<open>\<open>sub in s\<close> on two strings: \<open>sub\<close> occurs in \<open>s\<close> at some position.\<close>

fun str_contains :: "string \<Rightarrow> string \<Rightarrow> bool" where
  "str_contains sub [] = (sub = [])"
| "str_contains sub (c # cs) = (startswith (c # cs) sub \<or> str_contains sub cs)"

text \<open>The characters \<open>s.strip()\<close> removes: the white space below code point 256, the
  separators 0x1C to 0x1F among them.\<close>

definition is_space :: "char \<Rightarrow> bool" where
  "is_space c = (let n = (of_char c :: nat) in
     (9 \<le> n \<and> n \<le> 13) \<or> (28 \<le> n \<and> n \<le> 32) \<or> n = 133 \<or> n = 160)"

definition py_strip :: "string \<Rightarrow> string" where
  "py_strip s = rev (dropWhile is_space (rev (dropWhile is_space s)))"

text \<open>\<open>s.split(sep)\<close> for a non-empty separator: the pieces between the occurrences of
  \<open>sep\<close>, found from left to right without overlap. \<open>acc\<close> holds the current piece,
  reversed.\<close>

fun split_from :: "string \<Rightarrow> string \<Rightarrow> string \<Rightarrow> string list" where
  "split_from sep [] acc = [rev acc]"
| "split_from sep (c # cs) acc =
     (if sep \<noteq> [] \<and> startswith (c # cs) sep
      then rev acc # split_from sep (drop (length sep - 1) cs) []
      else split_from sep cs (c # acc))"

definition py_split :: "string \<Rightarrow> string \<Rightarrow> string list" where
  "py_split sep s = split_from sep s []"

section \<open>Exceptions\<close>

text \<open>
  A raised exception is a value: a function that can raise returns \<open>error + 'a\<close>, with
  \<open>Inl\<close> the exception. Only the message of an \<open>AttributeError\<close> is kept: it is the one
  exception that reaches the handler of \<open>analyze\<close>, which reads \<open>str(e)\<close>; the other
  handlers only print.
\<close>

datatype error = KeyError | TypeError | ValueError | IndexError | OverflowError
  | ZeroDivisionError | RequestError | AttributeError string

definition bind_e :: "error + 'a \<Rightarrow> ('a \<Rightarrow> error + 'b) \<Rightarrow> error + 'b" where
  "bind_e m f = (case m of Inl e \<Rightarrow> Inl e | Inr x \<Rightarrow> f x)"

text \<open>\<open>str(e)\<close>\<close>

fun str_error :: "error \<Rightarrow> string" where
  "str_error (AttributeError msg) = msg"
| "str_error e = []"

definition no_attribute :: "string \<Rightarrow> string \<Rightarrow> error" where
  "no_attribute tyname attr =
     AttributeError ([CHR 0x27] @ tyname @ [CHR 0x27] @ '' object has no attribute ''
       @ [CHR 0x27] @ attr @ [CHR 0x27])"

section \<open>Python floats\<close>

text \<open>
  A \<open>float\<close> is an IEEE 754 binary64 value. \<open>Finite s m e\<close> stands for
  \<open>(-1)\<^sup>s * m * 2\<^sup>e\<close> with \<open>m \<ge> 0\<close>; the results of the operations below are doubles:
  \<open>m < 2\<^sup>5\<^sup>3\<close> or \<open>m = 2\<^sup>5\<^sup>3\<close>, \<open>-1074 \<le> e\<close> and the value below \<open>2\<^sup>1\<^sup>0\<^sup>2\<^sup>4\<close>. All
  arithmetic is on integers.
\<close>

datatype pyfloat = Finite bool int int | Infinity bool | NaN

text \<open>The number of binary digits of a positive integer.\<close>

function bitlen :: "int \<Rightarrow> int" where
  "bitlen n = (if n \<le> 0 then 0 else 1 + bitlen (n div 2))"
  by pat_completeness auto
termination
  by (relation "measure nat") auto

declare bitlen.simps [simp del]

text \<open>\<open>\<lfloor>log\<^sub>2 (n / d)\<rfloor>\<close> for positive \<open>n\<close> and \<open>d\<close>: the difference of the bit lengths, or
  one less.\<close>

definition ilog2_ratio :: "int \<Rightarrow> int \<Rightarrow> int" where
  "ilog2_ratio n d = (let k = bitlen n - bitlen d in
     if d * 2 ^ nat k \<le> n * 2 ^ nat (- k) then k else k - 1)"

text \<open>\<open>n / d\<close> rounded to the nearest integer, a tie to the even one (\<open>0 \<le> n\<close>, \<open>0 < d\<close>).\<close>

definition div_half_even :: "int \<Rightarrow> int \<Rightarrow> int" where
  "div_half_even n d = (let q = n div d; r = n mod d in
     if 2 * r < d then q else if d < 2 * r then q + 1 else if even q then q else q + 1)"

text \<open>
  The double nearest to \<open>\<plusminus> n / d\<close> (round to nearest, ties to even): 53 significant bits,
  the unit in the last place never below \<open>2\<^sup>-\<^sup>1\<^sup>0\<^sup>7\<^sup>4\<close> (subnormal numbers), infinity from
  \<open>2\<^sup>1\<^sup>0\<^sup>2\<^sup>4\<close> on.
\<close>

definition round_double :: "bool \<Rightarrow> int \<Rightarrow> int \<Rightarrow> pyfloat" where
  "round_double neg n d =
     (if n = 0 then Finite neg 0 0
      else let e = ilog2_ratio n d;
               q = max (e - 52) (- 1074);
               m = div_half_even (n * 2 ^ nat (- q)) (d * 2 ^ nat q)
           in if 1024 < bitlen m + q then Infinity neg else Finite neg m q)"

text \<open>\<open>a / b\<close> on two \<open>int\<close>s: the correctly rounded quotient; \<open>ZeroDivisionError\<close>, and
  \<open>OverflowError\<close> when the quotient is too large for a float.\<close>

definition true_div_int :: "int \<Rightarrow> int \<Rightarrow> error + pyfloat" where
  "true_div_int a b =
     (if b = 0 then Inl ZeroDivisionError
      else case round_double ((a < 0) \<noteq> (b < 0)) \<bar>a\<bar> \<bar>b\<bar> of
             Infinity s \<Rightarrow> Inl OverflowError
           | x \<Rightarrow> Inr x)"

text \<open>\<open>float(n)\<close> on an \<open>int\<close>\<close>

definition float_of_int :: "int \<Rightarrow> error + pyfloat" where
  "float_of_int n =
     (case round_double (n < 0) \<bar>n\<bar> 1 of Infinity s \<Rightarrow> Inl OverflowError | x \<Rightarrow> Inr x)"

text \<open>\<open>x * y\<close> and \<open>x + y\<close> on two floats\<close>

fun float_mul :: "pyfloat \<Rightarrow> pyfloat \<Rightarrow> pyfloat" where
  "float_mul (Finite s1 m1 e1) (Finite s2 m2 e2) =
     round_double (s1 \<noteq> s2) (m1 * m2 * 2 ^ nat (e1 + e2)) (2 ^ nat (- (e1 + e2)))"
| "float_mul (Infinity s1) (Finite s2 m2 e2) = (if m2 = 0 then NaN else Infinity (s1 \<noteq> s2))"
| "float_mul (Finite s1 m1 e1) (Infinity s2) = (if m1 = 0 then NaN else Infinity (s1 \<noteq> s2))"
| "float_mul (Infinity s1) (Infinity s2) = Infinity (s1 \<noteq> s2)"
| "float_mul NaN y = NaN"
| "float_mul x NaN = NaN"

definition signed :: "bool \<Rightarrow> int \<Rightarrow> int" where
  "signed neg m = (if neg then - m else m)"

fun float_add :: "pyfloat \<Rightarrow> pyfloat \<Rightarrow> pyfloat" where
  "float_add (Finite s1 m1 e1) (Finite s2 m2 e2) =
     (let e = min e1 e2;
          a = signed s1 (m1 * 2 ^ nat (e1 - e)) + signed s2 (m2 * 2 ^ nat (e2 - e))
      in if a = 0 then Finite (s1 \<and> s2) 0 0
         else round_double (a < 0) (\<bar>a\<bar> * 2 ^ nat e) (2 ^ nat (- e)))"
| "float_add (Infinity s1) (Finite s2 m2 e2) = Infinity s1"
| "float_add (Finite s1 m1 e1) (Infinity s2) = Infinity s2"
| "float_add (Infinity s1) (Infinity s2) = (if s1 = s2 then Infinity s1 else NaN)"
| "float_add NaN y = NaN"
| "float_add x NaN = NaN"

text \<open>The float \<open>100.0\<close>, which the \<open>int\<close> 100 becomes as the factor of a float.\<close>

definition float_100 :: pyfloat where
  "float_100 = Finite False 100 0"

text \<open>\<open>int(x)\<close> on a float: truncation towards zero.\<close>

fun int_of_float :: "pyfloat \<Rightarrow> error + int" where
  "int_of_float (Finite s m e) = Inr (signed s (m * 2 ^ nat e div 2 ^ nat (- e)))"
| "int_of_float (Infinity s) = Inl OverflowError"
| "int_of_float NaN = Inl ValueError"

section \<open>Numbers as text\<close>

definition digit_char :: "int \<Rightarrow> char" where
  "digit_char d = ''0123456789'' ! nat d"

text \<open>The decimal digits of \<open>n \<ge> 0\<close>.\<close>

function digits_of :: "int \<Rightarrow> string" where
  "digits_of n = (if n < 10 then [digit_char n] else digits_of (n div 10) @ [digit_char (n mod 10)])"
  by pat_completeness auto
termination
  by (relation "measure nat") auto

declare digits_of.simps [simp del]

text \<open>\<open>str(n)\<close> on an \<open>int\<close>. The program calls it on numbers below \<open>2\<^sup>1\<^sup>0\<^sup>2\<^sup>4\<close> in
  magnitude only (\<open>int\<close> of a float), far from the number of digits at which it raises.\<close>

definition str_int :: "int \<Rightarrow> string" where
  "str_int n = (if n < 0 then CHR ''-'' # digits_of (- n) else digits_of n)"

definition zero_pad :: "nat \<Rightarrow> string \<Rightarrow> string" where
  "zero_pad w s = replicate (w - length s) CHR ''0'' @ s"

text \<open>\<open>f"{x:.pf}"\<close> on a float, for \<open>p > 0\<close>: the exact value of \<open>x\<close> rounded to \<open>p\<close>
  decimals, ties to even.\<close>

fun format_fixed :: "nat \<Rightarrow> pyfloat \<Rightarrow> string" where
  "format_fixed p (Finite s m e) =
     (let n = div_half_even (m * 10 ^ p * 2 ^ nat e) (2 ^ nat (- e))
      in (if s then ''-'' else []) @ digits_of (n div 10 ^ p) @ ''.''
           @ zero_pad p (digits_of (n mod 10 ^ p)))"
| "format_fixed p (Infinity s) = (if s then ''-inf'' else ''inf'')"
| "format_fixed p NaN = ''nan''"

definition is_digit :: "char \<Rightarrow> bool" where
  "is_digit c = (let n = (of_char c :: nat) in 48 \<le> n \<and> n \<le> 57)"

definition digit_val :: "char \<Rightarrow> int" where
  "digit_val c = int (of_char c) - 48"

text \<open>
  The longest prefix of the form \<open>digit (["_"] digit)*\<close>: its digits, and the rest of the
  string. Without a leading digit there are no digits.
\<close>

fun scan_digits :: "string \<Rightarrow> string \<times> string" where
  "scan_digits [] = ([], [])"
| "scan_digits [c] = (if is_digit c then ([c], []) else ([], [c]))"
| "scan_digits (c # d # cs) =
     (if \<not> is_digit c then ([], c # d # cs)
      else if is_digit d then (case scan_digits (d # cs) of (ds, r) \<Rightarrow> (c # ds, r))
      else if d = CHR ''_'' \<and> (case cs of [] \<Rightarrow> False | x # xs \<Rightarrow> is_digit x)
        then (case scan_digits cs of (ds, r) \<Rightarrow> (c # ds, r))
      else ([c], d # cs))"

definition digits_value :: "string \<Rightarrow> int" where
  "digits_value ds = foldl (\<lambda>a c. 10 * a + digit_val c) 0 ds"

text \<open>An optional sign: whether it is \<open>-\<close>, and the rest.\<close>

fun take_sign :: "string \<Rightarrow> bool \<times> string" where
  "take_sign [] = (False, [])"
| "take_sign (c # cs) =
     (if c = CHR ''-'' then (True, cs) else if c = CHR ''+'' then (False, cs) else (False, c # cs))"

text \<open>
  The white space \<open>int(s)\<close> and \<open>float(s)\<close> skip around a number. Both first turn every
  white space character from code point 127 on into a space (below 256 these are 0x85 and
  0xA0) and then skip the ASCII white space: tab, line feed, vertical tab, form feed,
  carriage return and space. The separators 0x1C to 0x1F, which \<open>s.strip()\<close> removes, are
  not skipped: a number with one of them beside it is malformed.
\<close>

definition is_number_space :: "char \<Rightarrow> bool" where
  "is_number_space c = (let n = (of_char c :: nat) in
     (9 \<le> n \<and> n \<le> 13) \<or> n = 32 \<or> n = 133 \<or> n = 160)"

definition strip_number :: "string \<Rightarrow> string" where
  "strip_number s = rev (dropWhile is_number_space (rev (dropWhile is_number_space s)))"

text \<open>The most digits \<open>int(s)\<close> converts (\<open>sys.int_max_str_digits\<close>, as the interpreter
  sets it by default); more raise \<open>ValueError\<close>.\<close>

definition max_str_digits :: nat where
  "max_str_digits = 4300"

text \<open>\<open>int(s)\<close> on a string: white space around, a sign, decimal digits with single
  underscores between them.\<close>

definition parse_int :: "string \<Rightarrow> error + int" where
  "parse_int s =
     (case take_sign (strip_number s) of (neg, u) \<Rightarrow>
        (case scan_digits u of (ds, r) \<Rightarrow>
           if ds = [] \<or> r \<noteq> [] then Inl ValueError
           else if length ds > max_str_digits then Inl ValueError
           else Inr (signed neg (digits_value ds))))"

text \<open>The exponent part of a float literal: nothing, or \<open>e\<close> or \<open>E\<close>, a sign and digits.
  \<open>None\<close> when the text is neither.\<close>

fun parse_exponent :: "string \<Rightarrow> int option" where
  "parse_exponent [] = Some 0"
| "parse_exponent (c # cs) =
     (if c = CHR ''e'' \<or> c = CHR ''E''
      then (case take_sign cs of (neg, u) \<Rightarrow>
              (case scan_digits u of (ds, r) \<Rightarrow>
                 if ds = [] \<or> r \<noteq> [] then None else Some (signed neg (digits_value ds))))
      else None)"

text \<open>
  \<open>float(s)\<close> on a string: white space around, a sign, then \<open>inf\<close>, \<open>infinity\<close> or \<open>nan\<close>
  in any case, or a decimal number with an optional point and exponent; the value is
  rounded correctly.
\<close>

definition parse_float :: "string \<Rightarrow> error + pyfloat" where
  "parse_float s =
     (case take_sign (strip_number s) of (neg, u) \<Rightarrow>
        if py_lower u = ''inf'' \<or> py_lower u = ''infinity'' then Inr (Infinity neg)
        else if py_lower u = ''nan'' then Inr NaN
        else (case scan_digits u of (ip, r1) \<Rightarrow>
          (case (case r1 of [] \<Rightarrow> ([], [])
                 | c # cs \<Rightarrow> if c = CHR ''.'' then scan_digits cs else ([], c # cs)) of
             (fp, r2) \<Rightarrow>
               if ip = [] \<and> fp = [] then Inl ValueError
               else (case parse_exponent r2 of
                       None \<Rightarrow> Inl ValueError
                     | Some x \<Rightarrow>
                         (let ex = x - int (length fp)
                          in Inr (round_double neg (digits_value (ip @ fp) * 10 ^ nat ex)
                                    (10 ^ nat (- ex))))))))"

section \<open>Python values\<close>

text \<open>
  The values the program handles: what \<open>response.json()\<close> returns and what \<open>jsonify\<close>
  takes. A \<open>dict\<close> is an association list with string keys, looked up from the front.
\<close>

datatype pyval = PNone | PBool bool | PInt int | PFloat pyfloat | PStr string
  | PList "pyval list" | PDict "(string \<times> pyval) list"

fun type_name :: "pyval \<Rightarrow> string" where
  "type_name PNone = ''NoneType''"
| "type_name (PBool b) = ''bool''"
| "type_name (PInt n) = ''int''"
| "type_name (PFloat x) = ''float''"
| "type_name (PStr s) = ''str''"
| "type_name (PList xs) = ''list''"
| "type_name (PDict kvs) = ''dict''"

text \<open>The truth value of \<open>v\<close> in \<open>if v\<close> and \<open>if not v\<close>.\<close>

fun truthy :: "pyval \<Rightarrow> bool" where
  "truthy PNone = False"
| "truthy (PBool b) = b"
| "truthy (PInt n) = (n \<noteq> 0)"
| "truthy (PFloat (Finite s m e)) = (m \<noteq> 0)"
| "truthy (PFloat x) = True"
| "truthy (PStr s) = (s \<noteq> [])"
| "truthy (PList xs) = (xs \<noteq> [])"
| "truthy (PDict kvs) = (kvs \<noteq> [])"

text \<open>\<open>key in v\<close> for a string \<open>key\<close>\<close>

fun py_contains :: "string \<Rightarrow> pyval \<Rightarrow> error + bool" where
  "py_contains k (PDict kvs) = Inr (map_of kvs k \<noteq> None)"
| "py_contains k (PList xs) = Inr (PStr k \<in> set xs)"
| "py_contains k (PStr s) = Inr (str_contains k s)"
| "py_contains k v = Inl TypeError"

text \<open>\<open>v[key]\<close> for a string \<open>key\<close>\<close>

fun py_getitem :: "pyval \<Rightarrow> string \<Rightarrow> error + pyval" where
  "py_getitem (PDict kvs) k = (case map_of kvs k of None \<Rightarrow> Inl KeyError | Some x \<Rightarrow> Inr x)"
| "py_getitem v k = Inl TypeError"

text \<open>\<open>v[0]\<close>\<close>

fun py_first :: "pyval \<Rightarrow> error + pyval" where
  "py_first (PList xs) = (case xs of [] \<Rightarrow> Inl IndexError | x # ys \<Rightarrow> Inr x)"
| "py_first (PStr s) = (case s of [] \<Rightarrow> Inl IndexError | c # cs \<Rightarrow> Inr (PStr [c]))"
| "py_first (PDict kvs) = Inl KeyError"
| "py_first v = Inl TypeError"

text \<open>\<open>len(v)\<close>\<close>

fun py_len :: "pyval \<Rightarrow> error + nat" where
  "py_len (PList xs) = Inr (length xs)"
| "py_len (PStr s) = Inr (length s)"
| "py_len (PDict kvs) = Inr (length (remdups (map fst kvs)))"
| "py_len v = Inl TypeError"

text \<open>\<open>v.get(key, default)\<close>\<close>

fun py_get :: "pyval \<Rightarrow> string \<Rightarrow> pyval \<Rightarrow> error + pyval" where
  "py_get (PDict kvs) k dflt = Inr (case map_of kvs k of None \<Rightarrow> dflt | Some x \<Rightarrow> x)"
| "py_get v k dflt = Inl (no_attribute (type_name v) ''get'')"

text \<open>The items \<open>for item in v\<close> runs through.\<close>

fun py_iter :: "pyval \<Rightarrow> error + pyval list" where
  "py_iter (PList xs) = Inr xs"
| "py_iter (PStr s) = Inr (map (\<lambda>c. PStr [c]) s)"
| "py_iter (PDict kvs) = Inr (map PStr (remdups (map fst kvs)))"
| "py_iter v = Inl TypeError"

text \<open>\<open>int(v)\<close> and \<open>float(v)\<close>\<close>

fun py_int :: "pyval \<Rightarrow> error + int" where
  "py_int (PInt n) = Inr n"
| "py_int (PBool b) = Inr (if b then 1 else 0)"
| "py_int (PFloat x) = int_of_float x"
| "py_int (PStr s) = parse_int s"
| "py_int v = Inl TypeError"

fun py_float :: "pyval \<Rightarrow> error + pyfloat" where
  "py_float (PFloat x) = Inr x"
| "py_float (PInt n) = float_of_int n"
| "py_float (PBool b) = float_of_int (if b then 1 else 0)"
| "py_float (PStr s) = parse_float s"
| "py_float v = Inl TypeError"

section \<open>Sentiment of a comment\<close>

definition positive_words :: "string list" where
  "positive_words = [''great'', ''awesome'', ''amazing'', ''love'', ''good'', ''excellent'',
     ''perfect'', ''nice'', ''wonderful'']"

definition negative_words :: "string list" where
  "negative_words = [''bad'', ''terrible'', ''awful'', ''hate'', ''worst'', ''horrible'',
     ''dislike'', ''poor'']"

text \<open>\<open>sum(1 for word in words if word in text_lower)\<close>\<close>

definition keyword_count :: "string list \<Rightarrow> string \<Rightarrow> nat" where
  "keyword_count ws text_lower = sum_list (map (\<lambda>w. 1) (filter (\<lambda>w. str_contains w text_lower) ws))"

definition analyze_sentiment :: "string \<Rightarrow> string" where
  "analyze_sentiment text =
     (let text_lower = py_lower text;
          positive_count = keyword_count positive_words text_lower;
          negative_count = keyword_count negative_words text_lower
      in if positive_count > negative_count then ''positive''
         else if negative_count > positive_count then ''negative''
         else ''neutral'')"

section \<open>Formatting and engagement\<close>

text \<open>\<open>format_number\<close>: every exception of the body is caught.\<close>

definition format_number_body :: "pyval \<Rightarrow> error + string" where
  "format_number_body num =
     bind_e (py_float num) (\<lambda>x.
     bind_e (int_of_float x) (\<lambda>n.
       if n \<ge> 1000000000 then
         bind_e (true_div_int n 1000000000) (\<lambda>q. Inr (format_fixed 1 q @ ''B''))
       else if n \<ge> 1000000 then
         bind_e (true_div_int n 1000000) (\<lambda>q. Inr (format_fixed 1 q @ ''M''))
       else if n \<ge> 1000 then
         bind_e (true_div_int n 1000) (\<lambda>q. Inr (format_fixed 1 q @ ''K''))
       else Inr (str_int n)))"

definition format_number :: "pyval \<Rightarrow> string" where
  "format_number num = (case format_number_body num of Inl e \<Rightarrow> ''0'' | Inr s \<Rightarrow> s)"

text \<open>The first statement of the body, \<open>num = int(float(num))\<close>: the number that is
  compared and formatted.\<close>

definition numeric_value :: "pyval \<Rightarrow> error + int" where
  "numeric_value x = bind_e (py_float x) int_of_float"

text \<open>A float value is a double: its magnitude is below \<open>2\<^sup>1\<^sup>0\<^sup>2\<^sup>4\<close>. Every float the
  operations above produce is one.\<close>

definition in_double_range :: "pyfloat \<Rightarrow> bool" where
  "in_double_range x = (case x of Finite s m e \<Rightarrow> 0 \<le> m \<and> bitlen m + e \<le> 1024 | _ \<Rightarrow> True)"

fun float_in_range :: "pyval \<Rightarrow> bool" where
  "float_in_range (PFloat x) = in_double_range x"
| "float_in_range v = True"

text \<open>\<open>int(stats.get(key, default))\<close>\<close>

definition int_field :: "pyval \<Rightarrow> string \<Rightarrow> int \<Rightarrow> error + int" where
  "int_field stats k dflt = bind_e (py_get stats k (PInt dflt)) py_int"

text \<open>The rest of \<open>calculate_video_engagement\<close>, from the three counts on.\<close>

definition video_engagement_of :: "int \<Rightarrow> int \<Rightarrow> int \<Rightarrow> error + pyval" where
  "video_engagement_of views likes comments =
     (if views > 0 then
        bind_e (true_div_int likes views) (\<lambda>lq.
        bind_e (true_div_int comments views) (\<lambda>cq.
        bind_e (true_div_int likes views) (\<lambda>lpv.
          (let like_ratio = float_mul lq float_100;
               comment_ratio = float_mul cq float_100;
               total_engagement = float_add like_ratio comment_ratio
           in Inr (PDict
                [(''like_ratio'', PStr (format_fixed 2 like_ratio @ ''%'')),
                 (''comment_ratio'', PStr (format_fixed 2 comment_ratio @ ''%'')),
                 (''total_engagement'', PStr (format_fixed 2 total_engagement @ ''%'')),
                 (''likes_per_view'', PStr (format_fixed 4 lpv))])))))
      else
        Inr (PDict
          [(''like_ratio'', PStr (format_fixed 2 (Finite False 0 0) @ ''%'')),
           (''comment_ratio'', PStr (format_fixed 2 (Finite False 0 0) @ ''%'')),
           (''total_engagement'', PStr (format_fixed 2 (Finite False 0 0) @ ''%'')),
           (''likes_per_view'', PStr ''0'')]))"

definition calculate_video_engagement :: "pyval \<Rightarrow> error + pyval" where
  "calculate_video_engagement stats =
     bind_e (int_field stats ''viewCount'' 0) (\<lambda>views.
     bind_e (int_field stats ''likeCount'' 0) (\<lambda>likes.
     bind_e (int_field stats ''commentCount'' 0) (\<lambda>comments.
       video_engagement_of views likes comments)))"

text \<open>\<open>sum(f(video) for video in recent_videos)\<close>, stopping at the first exception.\<close>

fun sum_ints :: "(pyval \<Rightarrow> error + int) \<Rightarrow> pyval list \<Rightarrow> error + int" where
  "sum_ints f [] = Inr 0"
| "sum_ints f (v # vs) = bind_e (f v) (\<lambda>n. bind_e (sum_ints f vs) (\<lambda>total. Inr (n + total)))"

text \<open>\<open>int(video['raw_data']['views'])\<close> and \<open>int(video['raw_data'].get(key, 0))\<close>\<close>

definition video_views :: "pyval \<Rightarrow> error + int" where
  "video_views video =
     bind_e (py_getitem video ''raw_data'') (\<lambda>raw. bind_e (py_getitem raw ''views'') py_int)"

definition video_count :: "string \<Rightarrow> pyval \<Rightarrow> error + int" where
  "video_count k video = bind_e (py_getitem video ''raw_data'') (\<lambda>raw. int_field raw k 0)"

text \<open>The rest of \<open>calculate_channel_engagement\<close>, from the totals and the subscriber
  count on; \<open>n\<close> is \<open>len(recent_videos)\<close>.\<close>

definition channel_engagement_of :: "int \<Rightarrow> int \<Rightarrow> int \<Rightarrow> int \<Rightarrow> int \<Rightarrow> error + pyval" where
  "channel_engagement_of total_views total_likes total_comments n subscriber_count =
     bind_e (true_div_int total_views n) (\<lambda>avg_views_per_video.
     bind_e (if subscriber_count > 0
             then bind_e (true_div_int (total_likes + total_comments) subscriber_count)
                    (\<lambda>q. Inr (float_mul q float_100))
             else Inr (Finite False 0 0)) (\<lambda>engagement_rate.
       Inr (PDict
         [(''avg_views_per_video'', PStr (format_number (PFloat avg_views_per_video))),
          (''engagement_rate'', PStr (format_fixed 2 engagement_rate @ ''%'')),
          (''total_recent_views'', PStr (format_number (PInt total_views))),
          (''total_recent_likes'', PStr (format_number (PInt total_likes))),
          (''total_recent_comments'', PStr (format_number (PInt total_comments)))])))"

definition calculate_channel_engagement :: "pyval list \<Rightarrow> pyval \<Rightarrow> error + pyval" where
  "calculate_channel_engagement recent_videos channel_stats =
     (if recent_videos = [] then Inr (PDict [])
      else
        bind_e (sum_ints video_views recent_videos) (\<lambda>total_views.
        bind_e (sum_ints (video_count ''likes'') recent_videos) (\<lambda>total_likes.
        bind_e (sum_ints (video_count ''comments'') recent_videos) (\<lambda>total_comments.
        bind_e (int_field channel_stats ''subscriberCount'' 1) (\<lambda>subscriber_count.
          channel_engagement_of total_views total_likes total_comments
            (int (length recent_videos)) subscriber_count)))))"

text \<open>
  The engagement rate as the specification words it, to be compared with the one of
  \<open>calculate_channel_engagement\<close>:
  \<open>(total_likes + total_comments) / max(subscriber_count, 1) * 100\<close>, as a percentage
  string.
\<close>

definition spec_engagement_rate :: "int \<Rightarrow> int \<Rightarrow> int \<Rightarrow> error + string" where
  "spec_engagement_rate total_likes total_comments subscriber_count =
     bind_e (true_div_int (total_likes + total_comments) (max subscriber_count 1))
       (\<lambda>q. Inr (format_fixed 2 (float_mul q float_100) @ ''%''))"

section \<open>Regular expressions of the extractors\<close>

text \<open>The class \<open>[^/?&]\<close>\<close>

definition not_delim :: "char \<Rightarrow> bool" where
  "not_delim c = (c \<noteq> CHR ''/'' \<and> c \<noteq> CHR ''?'' \<and> c \<noteq> CHR ''&'')"

text \<open>
  \<open>re.search(lit + '([^/?&]+)', s)\<close> for a literal \<open>lit\<close>: group 1 of the leftmost match.
  A match at a position needs the literal there and at least one character of the class
  after it; the greedy group takes all such characters.
\<close>

fun search_segment :: "string \<Rightarrow> string \<Rightarrow> string option" where
  "search_segment lit [] = None"
| "search_segment lit (c # cs) =
     (if startswith (c # cs) lit \<and> takeWhile not_delim (drop (length lit) (c # cs)) \<noteq> []
      then Some (takeWhile not_delim (drop (length lit) (c # cs)))
      else search_segment lit cs)"

text \<open>The class \<open>[0-9A-Za-z_-]\<close>\<close>

definition id_char :: "char \<Rightarrow> bool" where
  "id_char c = (let n = (of_char c :: nat) in
     (48 \<le> n \<and> n \<le> 57) \<or> (65 \<le> n \<and> n \<le> 90) \<or> (97 \<le> n \<and> n \<le> 122)
       \<or> c = CHR ''_'' \<or> c = CHR ''-'')"

text \<open>A match of \<open>(?:a1|a2|...)([0-9A-Za-z_-]{11})\<close> that starts at the head of \<open>s\<close>: the
  alternatives are tried in order, the group is the 11 characters after the literal.\<close>

fun match_id11 :: "string list \<Rightarrow> string \<Rightarrow> string option" where
  "match_id11 [] s = None"
| "match_id11 (lit # alts) s =
     (let g = take 11 (drop (length lit) s)
      in if startswith s lit \<and> length g = 11 \<and> list_all id_char g then Some g
         else match_id11 alts s)"

text \<open>\<open>re.search\<close> of that pattern: group 1 of the leftmost match. A trailing \<open>.*\<close>, as in
  the first pattern of \<open>extract_video_id\<close>, matches whatever follows and changes nothing.\<close>

fun search_id11 :: "string list \<Rightarrow> string \<Rightarrow> string option" where
  "search_id11 alts [] = None"
| "search_id11 alts (c # cs) =
     (case match_id11 alts (c # cs) of Some g \<Rightarrow> Some g | None \<Rightarrow> search_id11 alts cs)"

text \<open>The loop over the patterns: the first match is returned.\<close>

fun first_match :: "string option list \<Rightarrow> string option" where
  "first_match [] = None"
| "first_match (Some g # ms) = Some g"
| "first_match (None # ms) = first_match ms"

definition extract_channel_id :: "string \<Rightarrow> string option" where
  "extract_channel_id url = first_match
     [search_segment ''youtube.com/channel/'' url,
      search_segment ''youtube.com/c/'' url,
      search_segment ''youtube.com/user/'' url,
      search_segment ''youtube.com/@'' url]"

definition extract_video_id :: "string \<Rightarrow> string option" where
  "extract_video_id url = first_match
     [search_id11 [''v='', ''/''] url,
      search_id11 [''embed/''] url,
      search_id11 [''shorts/''] url,
      search_id11 [''youtu.be/''] url]"

section \<open>The remote API\<close>

text \<open>
  A call of the remote API is \<open>requests.get(url, params)\<close> followed by \<open>response.json()\<close>.
  The request names the endpoint and the parameters that vary (the key is the same in
  every call). The remote service is a function from the calls made so far and the request
  to the outcome: the parsed body, or the exception the call raises. The state the program
  threads is the list of the calls made.
\<close>

datatype request =
    Search string
  | Channels pyval
  | PlaylistItems pyval int
  | Videos string pyval
  | CommentThreads string int

type_synonym remote = "request list \<Rightarrow> request \<Rightarrow> error + pyval"

definition http_get :: "remote \<Rightarrow> request \<Rightarrow> request list \<Rightarrow> (error + pyval) \<times> request list" where
  "http_get r q calls = (r calls q, calls @ [q])"

text \<open>\<open>'items' in data and len(data['items']) > 0\<close>\<close>

definition has_items :: "pyval \<Rightarrow> error + bool" where
  "has_items data =
     bind_e (py_contains ''items'' data) (\<lambda>present.
       if present then bind_e (py_getitem data ''items'') (\<lambda>items.
                       bind_e (py_len items) (\<lambda>n. Inr (n > 0)))
       else Inr False)"

text \<open>\<open>data['items'][0]\<close>\<close>

definition first_item :: "pyval \<Rightarrow> error + pyval" where
  "first_item data = bind_e (py_getitem data ''items'') py_first"

section \<open>The analyzer\<close>

text \<open>The body of the \<open>try\<close> of \<open>get_channel_id_from_custom_url\<close>, after the call:
  \<open>None\<close> when the \<open>if\<close> is not taken.\<close>

definition found_channel_id :: "pyval \<Rightarrow> error + pyval" where
  "found_channel_id data =
     bind_e (has_items data) (\<lambda>ok.
       if ok then bind_e (first_item data) (\<lambda>item.
                  bind_e (py_getitem item ''snippet'') (\<lambda>snippet.
                    py_getitem snippet ''channelId''))
       else Inr PNone)"

definition get_channel_id_from_custom_url ::
    "remote \<Rightarrow> string \<Rightarrow> request list \<Rightarrow> pyval \<times> request list" where
  "get_channel_id_from_custom_url r custom_url calls =
     (case http_get r (Search custom_url) calls of (resp, calls1) \<Rightarrow>
        (case bind_e resp found_channel_id of
           Inl e \<Rightarrow> (PNone, calls1)
         | Inr channel_id \<Rightarrow> (channel_id, calls1)))"

text \<open>The body of the \<open>try\<close> of \<open>get_video_stats_by_id\<close>, after the call.\<close>

definition video_summary :: "pyval \<Rightarrow> error + pyval" where
  "video_summary data =
     bind_e (has_items data) (\<lambda>ok.
       if ok then
         bind_e (first_item data) (\<lambda>video_data.
         bind_e (py_getitem video_data ''statistics'') (\<lambda>stats.
         bind_e (py_getitem video_data ''snippet'') (\<lambda>snippet.
         bind_e (py_getitem snippet ''title'') (\<lambda>title.
         bind_e (py_getitem snippet ''publishedAt'') (\<lambda>published_at.
         bind_e (py_get stats ''viewCount'' (PInt 0)) (\<lambda>views.
         bind_e (py_get stats ''likeCount'' (PInt 0)) (\<lambda>likes.
         bind_e (py_get stats ''commentCount'' (PInt 0)) (\<lambda>comments.
           Inr (PDict
             [(''title'', title),
              (''published_at'', published_at),
              (''raw_data'', PDict
                 [(''views'', views), (''likes'', likes), (''comments'', comments)])])))))))))
       else Inr PNone)"

definition get_video_stats_by_id :: "remote \<Rightarrow> pyval \<Rightarrow> request list \<Rightarrow> pyval \<times> request list" where
  "get_video_stats_by_id r video_id calls =
     (case http_get r (Videos ''statistics,snippet'' video_id) calls of (resp, calls1) \<Rightarrow>
        (case bind_e resp video_summary of
           Inl e \<Rightarrow> (PNone, calls1)
         | Inr video_stats \<Rightarrow> (video_stats, calls1)))"

text \<open>The loop of \<open>get_recent_videos\<close>: one call for each item, in order; an exception
  leaves the function with the empty list.\<close>

fun collect_videos ::
    "remote \<Rightarrow> pyval list \<Rightarrow> pyval list \<Rightarrow> request list \<Rightarrow> pyval list \<times> request list" where
  "collect_videos r [] videos calls = (videos, calls)"
| "collect_videos r (item # items) videos calls =
     (case bind_e (py_getitem item ''contentDetails'') (\<lambda>cd. py_getitem cd ''videoId'') of
        Inl e \<Rightarrow> ([], calls)
      | Inr video_id \<Rightarrow>
          (case get_video_stats_by_id r video_id calls of (video_stats, calls1) \<Rightarrow>
             collect_videos r items
               (if truthy video_stats then videos @ [video_stats] else videos) calls1))"

definition get_recent_videos :: "remote \<Rightarrow> pyval \<Rightarrow> request list \<Rightarrow> pyval list \<times> request list" where
  "get_recent_videos r playlist_id calls =
     (case http_get r (PlaylistItems playlist_id 10) calls of (resp, calls1) \<Rightarrow>
        (case bind_e resp (\<lambda>data.
                bind_e (py_contains ''items'' data) (\<lambda>present.
                  if present then bind_e (py_getitem data ''items'') py_iter else Inr [])) of
           Inl e \<Rightarrow> ([], calls1)
         | Inr items \<Rightarrow> collect_videos r items [] calls1))"

definition failure :: "string \<Rightarrow> pyval" where
  "failure msg = PDict [(''success'', PBool False), (''error'', PStr msg)]"

text \<open>\<open>snippet['thumbnails']['high']['url']\<close>\<close>

definition thumbnail_url :: "pyval \<Rightarrow> error + pyval" where
  "thumbnail_url snippet =
     bind_e (py_getitem snippet ''thumbnails'') (\<lambda>t.
     bind_e (py_getitem t ''high'') (\<lambda>h. py_getitem h ''url''))"

text \<open>The dictionary \<open>get_channel_stats\<close> returns on success.\<close>

definition channel_result :: "pyval \<Rightarrow> pyval \<Rightarrow> pyval \<Rightarrow> pyval list \<Rightarrow> error + pyval" where
  "channel_result stats snippet engagement_metrics recent_videos =
     bind_e (py_getitem snippet ''title'') (\<lambda>title.
     bind_e (py_get snippet ''description'' (PStr [])) (\<lambda>description.
     bind_e (py_get snippet ''customUrl'' (PStr [])) (\<lambda>custom_url.
     bind_e (py_get stats ''subscriberCount'' (PInt 0)) (\<lambda>subscribers.
     bind_e (py_get stats ''viewCount'' (PInt 0)) (\<lambda>views.
     bind_e (py_get stats ''videoCount'' (PInt 0)) (\<lambda>videos.
     bind_e (thumbnail_url snippet) (\<lambda>thumbnail.
     bind_e (py_get snippet ''country'' (PStr ''Not specified'')) (\<lambda>country.
     bind_e (py_getitem snippet ''publishedAt'') (\<lambda>published_at.
       Inr (PDict
         [(''success'', PBool True),
          (''type'', PStr ''channel''),
          (''title'', title),
          (''description'', description),
          (''custom_url'', custom_url),
          (''subscribers'', PStr (format_number subscribers)),
          (''views'', PStr (format_number views)),
          (''videos'', PStr (format_number videos)),
          (''thumbnail'', thumbnail),
          (''country'', country),
          (''published_at'', published_at),
          (''engagement_metrics'', engagement_metrics),
          (''recent_videos'', PList (take 5 recent_videos)),
          (''raw_data'', PDict
             [(''subscribers'', subscribers), (''views'', views), (''videos'', videos)])]))))))))))"

text \<open>The channel resource of a response: its statistics, its snippet and the id of its
  uploads playlist; \<open>None\<close> when the response has no items.\<close>

definition channel_parts :: "pyval \<Rightarrow> error + (pyval \<times> pyval \<times> pyval) option" where
  "channel_parts data =
     bind_e (has_items data) (\<lambda>ok.
       if ok then
         bind_e (first_item data) (\<lambda>channel_data.
         bind_e (py_getitem channel_data ''statistics'') (\<lambda>stats.
         bind_e (py_getitem channel_data ''snippet'') (\<lambda>snippet.
         bind_e (py_getitem channel_data ''contentDetails'') (\<lambda>cd.
         bind_e (py_getitem cd ''relatedPlaylists'') (\<lambda>rp.
         bind_e (py_getitem rp ''uploads'') (\<lambda>uploads_playlist_id.
           Inr (Some (stats, snippet, uploads_playlist_id))))))))
       else Inr None)"

text \<open>\<open>get_channel_stats\<close> from the channel id on: the \<open>try\<close> and the failure result
  after it.\<close>

definition fetch_channel :: "remote \<Rightarrow> pyval \<Rightarrow> request list \<Rightarrow> pyval \<times> request list" where
  "fetch_channel r channel_id calls =
     (case http_get r (Channels channel_id) calls of (resp, calls1) \<Rightarrow>
        (case bind_e resp channel_parts of
           Inr (Some (stats, snippet, uploads_playlist_id)) \<Rightarrow>
             (case get_recent_videos r uploads_playlist_id calls1 of (recent_videos, calls2) \<Rightarrow>
                (case bind_e (calculate_channel_engagement recent_videos stats)
                        (\<lambda>engagement_metrics.
                           channel_result stats snippet engagement_metrics recent_videos) of
                   Inr result \<Rightarrow> (result, calls2)
                 | Inl e \<Rightarrow> (failure ''Could not fetch channel data'', calls2)))
         | Inr None \<Rightarrow> (failure ''Could not fetch channel data'', calls1)
         | Inl e \<Rightarrow> (failure ''Could not fetch channel data'', calls1)))"

text \<open>
  The first statement of \<open>get_channel_stats\<close>, the resolution of the identifier: the
  channel id to fetch, or \<open>None\<close> where the method returns \<open>None\<close>.
\<close>

definition resolve_channel ::
    "remote \<Rightarrow> string \<Rightarrow> request list \<Rightarrow> pyval option \<times> request list" where
  "resolve_channel r ident calls =
     (if startswith ident ''UC'' \<and> length ident = 24 then (Some (PStr ident), calls)
      else
        (case get_channel_id_from_custom_url r ident calls of (channel_id, calls1) \<Rightarrow>
           if \<not> truthy channel_id then (None, calls1) else (Some channel_id, calls1)))"

text \<open>
  \<open>get_channel_stats\<close>. The identifier is a string or \<open>None\<close>; on \<open>None\<close> the call of
  \<open>startswith\<close> raises, outside every \<open>try\<close> of the method. The result is a dictionary or
  \<open>None\<close>.
\<close>

definition get_channel_stats ::
    "remote \<Rightarrow> string option \<Rightarrow> request list \<Rightarrow> (error + pyval) \<times> request list" where
  "get_channel_stats r channel_identifier calls =
     (case channel_identifier of
        None \<Rightarrow> (Inl (no_attribute ''NoneType'' ''startswith''), calls)
      | Some ident \<Rightarrow>
          (case resolve_channel r ident calls of
             (None, calls1) \<Rightarrow> (Inr PNone, calls1)
           | (Some channel_id, calls1) \<Rightarrow>
               (case fetch_channel r channel_id calls1 of
                  (result, calls2) \<Rightarrow> (Inr result, calls2))))"

text \<open>\<open>text.lower()\<close> needs a string.\<close>

fun as_str :: "string \<Rightarrow> pyval \<Rightarrow> error + string" where
  "as_str attr (PStr s) = Inr s"
| "as_str attr v = Inl (no_attribute (type_name v) attr)"

text \<open>One round of the loop of \<open>get_video_comments\<close>: the entry for an item.\<close>

definition comment_entry :: "pyval \<Rightarrow> error + pyval" where
  "comment_entry item =
     bind_e (py_getitem item ''snippet'') (\<lambda>s1.
     bind_e (py_getitem s1 ''topLevelComment'') (\<lambda>tlc.
     bind_e (py_getitem tlc ''snippet'') (\<lambda>comment.
     bind_e (py_getitem comment ''authorDisplayName'') (\<lambda>author.
     bind_e (py_getitem comment ''textDisplay'') (\<lambda>text.
     bind_e (py_getitem comment ''likeCount'') (\<lambda>likes.
     bind_e (py_getitem comment ''publishedAt'') (\<lambda>published_at.
     bind_e (as_str ''lower'' text) (\<lambda>t.
       Inr (PDict
         [(''author'', author),
          (''text'', text),
          (''likes'', likes),
          (''published_at'', published_at),
          (''sentiment'', PStr (analyze_sentiment t))])))))))))"

fun comment_entries :: "pyval list \<Rightarrow> error + pyval list" where
  "comment_entries [] = Inr []"
| "comment_entries (item # items) =
     bind_e (comment_entry item) (\<lambda>c. bind_e (comment_entries items) (\<lambda>cs. Inr (c # cs)))"

text \<open>The body of the \<open>try\<close> of \<open>get_video_comments\<close>, after the call.\<close>

definition comments_of :: "pyval \<Rightarrow> error + pyval list" where
  "comments_of data =
     bind_e (py_contains ''items'' data) (\<lambda>present.
       if present then bind_e (py_getitem data ''items'') (\<lambda>items.
                       bind_e (py_iter items) comment_entries)
       else Inr [])"

definition get_video_comments :: "remote \<Rightarrow> string \<Rightarrow> request list \<Rightarrow> pyval list \<times> request list" where
  "get_video_comments r video_id calls =
     (case http_get r (CommentThreads video_id 50) calls of (resp, calls1) \<Rightarrow>
        (case bind_e resp comments_of of
           Inl e \<Rightarrow> ([], calls1)
         | Inr comments \<Rightarrow> (comments, calls1)))"

text \<open>The video resource of a response: its statistics, snippet and content details;
  \<open>None\<close> when the response has no items.\<close>

definition video_parts :: "pyval \<Rightarrow> error + (pyval \<times> pyval \<times> pyval) option" where
  "video_parts data =
     bind_e (has_items data) (\<lambda>ok.
       if ok then
         bind_e (first_item data) (\<lambda>video_data.
         bind_e (py_getitem video_data ''statistics'') (\<lambda>stats.
         bind_e (py_getitem video_data ''snippet'') (\<lambda>snippet.
         bind_e (py_getitem video_data ''contentDetails'') (\<lambda>content_details.
           Inr (Some (stats, snippet, content_details))))))
       else Inr None)"

text \<open>The dictionary \<open>get_video_stats\<close> returns on success.\<close>

definition video_result :: "pyval \<Rightarrow> pyval \<Rightarrow> pyval \<Rightarrow> pyval list \<Rightarrow> error + pyval" where
  "video_result stats snippet content_details comments =
     bind_e (calculate_video_engagement stats) (\<lambda>engagement_metrics.
     bind_e (py_getitem snippet ''title'') (\<lambda>title.
     bind_e (py_get snippet ''description'' (PStr [])) (\<lambda>description.
     bind_e (py_getitem snippet ''channelTitle'') (\<lambda>channel_title.
     bind_e (py_getitem snippet ''channelId'') (\<lambda>channel_id.
     bind_e (py_get stats ''viewCount'' (PInt 0)) (\<lambda>views.
     bind_e (py_get stats ''likeCount'' (PInt 0)) (\<lambda>likes.
     bind_e (py_get stats ''commentCount'' (PInt 0)) (\<lambda>comment_count.
     bind_e (py_getitem content_details ''duration'') (\<lambda>duration.
     bind_e (py_getitem snippet ''publishedAt'') (\<lambda>published_at.
     bind_e (thumbnail_url snippet) (\<lambda>thumbnail.
     bind_e (py_get snippet ''categoryId'' (PStr [])) (\<lambda>category_id.
     bind_e (py_get snippet ''tags'' (PList [])) (\<lambda>tags.
       Inr (PDict
         [(''success'', PBool True),
          (''type'', PStr ''video''),
          (''title'', title),
          (''description'', description),
          (''channel_title'', channel_title),
          (''channel_id'', channel_id),
          (''views'', PStr (format_number views)),
          (''likes'', PStr (format_number likes)),
          (''comments'', PStr (format_number comment_count)),
          (''duration'', duration),
          (''published_at'', published_at),
          (''thumbnail'', thumbnail),
          (''category_id'', category_id),
          (''tags'', tags),
          (''comments_data'', PList comments),
          (''engagement_metrics'', engagement_metrics),
          (''raw_data'', PDict
             [(''views'', views), (''likes'', likes), (''comments'', comment_count),
              (''duration'', duration)])]))))))))))))))"

definition get_video_stats :: "remote \<Rightarrow> string \<Rightarrow> request list \<Rightarrow> pyval \<times> request list" where
  "get_video_stats r video_url calls =
     (case extract_video_id video_url of
        None \<Rightarrow> (failure ''Invalid video URL'', calls)
      | Some video_id \<Rightarrow>
          if video_id = [] then (failure ''Invalid video URL'', calls)
          else
            (case http_get r (Videos ''statistics,snippet,contentDetails'' (PStr video_id)) calls of
               (resp, calls1) \<Rightarrow>
                 (case bind_e resp video_parts of
                    Inr (Some (stats, snippet, content_details)) \<Rightarrow>
                      (case get_video_comments r video_id calls1 of (comments, calls2) \<Rightarrow>
                         (case video_result stats snippet content_details comments of
                            Inr result \<Rightarrow> (result, calls2)
                          | Inl e \<Rightarrow> (failure ''Could not fetch video data'', calls2)))
                  | Inr None \<Rightarrow> (failure ''Could not fetch video data'', calls1)
                  | Inl e \<Rightarrow> (failure ''Could not fetch video data'', calls1))))"

section \<open>The request handler\<close>

text \<open>\<open>any(pattern in url for pattern in patterns)\<close>\<close>

definition any_in :: "string list \<Rightarrow> string \<Rightarrow> bool" where
  "any_in patterns url = list_ex (\<lambda>pattern. str_contains pattern url) patterns"

text \<open>\<open>url.split(marker)[-1].split('/')[0]\<close>; \<open>split\<close> never returns an empty list.\<close>

definition segment_after :: "string \<Rightarrow> string \<Rightarrow> string" where
  "segment_after marker url = hd (py_split ''/'' (last (py_split marker url)))"

text \<open>The channel identifier \<open>analyze\<close> passes on: the one \<open>extract_channel_id\<close> finds,
  and when that is \<open>None\<close> or empty, the one of the second pass.\<close>

definition channel_identifier_of :: "string \<Rightarrow> string option" where
  "channel_identifier_of url =
     (case extract_channel_id url of
        Some ident \<Rightarrow>
          if ident \<noteq> [] then Some ident
          else if str_contains ''youtube.com/c/'' url then Some (segment_after ''youtube.com/c/'' url)
          else if str_contains ''youtube.com/@'' url then Some (segment_after ''youtube.com/@'' url)
          else if str_contains ''youtube.com/user/'' url
            then Some (segment_after ''youtube.com/user/'' url)
          else Some ident
      | None \<Rightarrow>
          if str_contains ''youtube.com/c/'' url then Some (segment_after ''youtube.com/c/'' url)
          else if str_contains ''youtube.com/@'' url then Some (segment_after ''youtube.com/@'' url)
          else if str_contains ''youtube.com/user/'' url
            then Some (segment_after ''youtube.com/user/'' url)
          else None)"

text \<open>The decision the handler takes on a URL.\<close>

datatype url_class = ChannelUrl "string option" | VideoUrl | Unsupported

definition classify :: "string \<Rightarrow> url_class" where
  "classify url =
     (if any_in [''youtube.com/channel/'', ''youtube.com/c/'', ''youtube.com/user/'',
                 ''youtube.com/@''] url
      then ChannelUrl (channel_identifier_of url)
      else if any_in [''youtube.com/watch'', ''youtu.be/'', ''youtube.com/shorts/''] url
      then VideoUrl
      else Unsupported)"

text \<open>The body of the \<open>try\<close> of \<open>analyze\<close>: the value handed to \<open>jsonify\<close>, or the
  exception raised.\<close>

definition analyze_url :: "remote \<Rightarrow> string \<Rightarrow> request list \<Rightarrow> (error + pyval) \<times> request list" where
  "analyze_url r url calls =
     (case classify url of
        ChannelUrl channel_identifier \<Rightarrow> get_channel_stats r channel_identifier calls
      | VideoUrl \<Rightarrow> (case get_video_stats r url calls of (result, calls1) \<Rightarrow> (Inr result, calls1))
      | Unsupported \<Rightarrow> (Inr (failure ''Unsupported URL format''), calls))"

text \<open>\<open>data.get('url', '').strip()\<close>\<close>

definition url_field :: "pyval \<Rightarrow> error + string" where
  "url_field data =
     bind_e (py_get data ''url'' (PStr [])) (\<lambda>u.
     bind_e (as_str ''strip'' u) (\<lambda>s. Inr (py_strip s)))"

text \<open>
  \<open>analyze\<close>, on the parsed body of the request: the JSON value of the response and the
  calls made. \<open>Inl\<close> is an exception no handler of the function catches (the two
  statements before the \<open>try\<close>).
\<close>

definition analyze :: "remote \<Rightarrow> pyval \<Rightarrow> request list \<Rightarrow> (error + pyval) \<times> request list" where
  "analyze r data calls =
     (case url_field data of
        Inl e \<Rightarrow> (Inl e, calls)
      | Inr url \<Rightarrow>
          if url = [] then (Inr (failure ''Please provide a URL''), calls)
          else (case analyze_url r url calls of
                  (Inr result, calls1) \<Rightarrow> (Inr result, calls1)
                | (Inl e, calls1) \<Rightarrow> (Inr (failure (''Analysis failed: '' @ str_error e)), calls1)))"

section \<open>URL shapes\<close>

text \<open>What may stand before the host name in the URLs of the round-trip property.\<close>

definition schemes :: "string list" where
  "schemes = [[], ''https://'', ''http://'', ''https://www.'', ''http://www.'', ''https://m.'']"

section \<open>Counting calls, and example data\<close>

fun is_search :: "request \<Rightarrow> bool" where
  "is_search (Search q) = True"
| "is_search q = False"

definition count_search :: "request list \<Rightarrow> nat" where
  "count_search calls = length (filter is_search calls)"

text \<open>A remote service that finds no channel: every response is \<open>{"items": []}\<close>.\<close>

definition nothing_found :: remote where
  "nothing_found calls q = Inr (PDict [(''items'', PList [])])"

text \<open>A summary of a recent video, as \<open>get_video_stats_by_id\<close> returns it, with the
  three counts as the API sends them.\<close>

definition example_summary :: "string \<Rightarrow> string \<Rightarrow> string \<Rightarrow> pyval" where
  "example_summary views likes comments = PDict
     [(''title'', PStr ''A video''),
      (''published_at'', PStr ''2024-01-01T00:00:00Z''),
      (''raw_data'', PDict
         [(''views'', PStr views), (''likes'', PStr likes), (''comments'', PStr comments)])]"

text \<open>A complete video resource, and a remote service that serves it and fails every
  other call, the one for the comments among them.\<close>

definition example_stats :: pyval where
  "example_stats = PDict
     [(''viewCount'', PStr ''100''), (''likeCount'', PStr ''10''), (''commentCount'', PStr ''5'')]"

definition example_snippet :: pyval where
  "example_snippet = PDict
     [(''title'', PStr ''A video''),
      (''channelTitle'', PStr ''A channel''),
      (''channelId'', PStr ''UCabcdefghijklmnopqrstuv''),
      (''publishedAt'', PStr ''2024-01-01T00:00:00Z''),
      (''thumbnails'', PDict [(''high'', PDict [(''url'', PStr ''https://i.ytimg.com/x.jpg'')])])]"

definition example_details :: pyval where
  "example_details = PDict [(''duration'', PStr ''PT1M'')]"

definition example_video :: pyval where
  "example_video = PDict
     [(''statistics'', example_stats), (''snippet'', example_snippet),
      (''contentDetails'', example_details)]"

text \<open>The result for that video when no comment could be fetched.\<close>

definition example_result :: pyval where
  "example_result = PDict
     [(''success'', PBool True), (''type'', PStr ''video''),
      (''title'', PStr ''A video''), (''description'', PStr []),
      (''channel_title'', PStr ''A channel''),
      (''channel_id'', PStr ''UCabcdefghijklmnopqrstuv''),
      (''views'', PStr ''100''), (''likes'', PStr ''10''),
      (''comments'', PStr ''5''), (''duration'', PStr ''PT1M''),
      (''published_at'', PStr ''2024-01-01T00:00:00Z''),
      (''thumbnail'', PStr ''https://i.ytimg.com/x.jpg''),
      (''category_id'', PStr []), (''tags'', PList []),
      (''comments_data'', PList []),
      (''engagement_metrics'', PDict
         [(''like_ratio'', PStr ''10.00%''),
          (''comment_ratio'', PStr ''5.00%''),
          (''total_engagement'', PStr ''15.00%''),
          (''likes_per_view'', PStr ''0.1000'')]),
      (''raw_data'', PDict
         [(''views'', PStr ''100''), (''likes'', PStr ''10''),
          (''comments'', PStr ''5''), (''duration'', PStr ''PT1M'')])]"

fun comments_down :: remote where
  "comments_down calls (Videos part video_id) = Inr (PDict [(''items'', PList [example_video])])"
| "comments_down calls q = Inl RequestError"

section \<open>Facts about strings\<close>



section \<open>Facts about the sentiment tag\<close>






section \<open>Facts about the request handler\<close>

text \<open>The one exception that reaches the handler of \<open>analyze\<close>.\<close>

lemma get_channel_stats_raises:
  assumes "fst (get_channel_stats r ident calls) = Inl e"
  shows "ident = None \<and> e = no_attribute ''NoneType'' ''startswith''"
  using assms
  by (auto simp: get_channel_stats_def split: option.splits prod.splits)

lemma analyze_url_raises:
  assumes "fst (analyze_url r url calls) = Inl e"
  shows "e = no_attribute ''NoneType'' ''startswith''"
  using assms get_channel_stats_raises
  by (auto simp: analyze_url_def split: url_class.splits prod.splits)

lemma py_strip_all_space:
  assumes "list_all is_space s"
  shows "py_strip s = []"
proof -
  from assms have e: "dropWhile is_space s = []"
    by (simp add: list_all_iff)
  show ?thesis
    unfolding py_strip_def by (simp only: e rev.simps dropWhile.simps)
qed

text \<open>
  Claim C9. A request whose \<open>url\<close> field is missing, empty or only white space is
  answered with exactly \<open>{"success": false, "error": "Please provide a URL"}\<close>, and no
  remote call is made: the list of calls is the one the handler started with.
\<close>

theorem analyze_without_url:
  assumes "map_of kvs ''url'' = None
           \<or> (\<exists>s. map_of kvs ''url'' = Some (PStr s) \<and> list_all is_space s)"
  shows "analyze r (PDict kvs) calls
         = (Inr (PDict [(''success'', PBool False), (''error'', PStr ''Please provide a URL'')]),
            calls)"
proof -
  from assms have "url_field (PDict kvs) = Inr []"
  proof
    assume "map_of kvs ''url'' = None"
    then show ?thesis
      by (simp add: url_field_def bind_e_def py_strip_def)
  next
    assume "\<exists>s. map_of kvs ''url'' = Some (PStr s) \<and> list_all is_space s"
    then obtain s where "map_of kvs ''url'' = Some (PStr s)" and "list_all is_space s"
      by blast
    then show ?thesis
      by (simp add: url_field_def bind_e_def py_strip_all_space)
  qed
  then show ?thesis
    by (simp add: analyze_def failure_def)
qed

theorem analyze_without_url_witness:
  "analyze (\<lambda>calls q. Inl RequestError) (PDict []) []
     = (Inr (PDict [(''success'', PBool False), (''error'', PStr ''Please provide a URL'')]), [])
   \<and> analyze (\<lambda>calls q. Inl RequestError) (PDict [(''url'', PStr [])]) []
     = (Inr (PDict [(''success'', PBool False), (''error'', PStr ''Please provide a URL'')]), [])
   \<and> analyze (\<lambda>calls q. Inl RequestError) (PDict [(''url'', PStr ''  '')]) []
     = (Inr (PDict [(''success'', PBool False), (''error'', PStr ''Please provide a URL'')]), [])"
proof -
  have space: "list_all is_space ''  ''"
    by (simp add: is_space_def)
  show ?thesis
    using analyze_without_url [of "[]" "\<lambda>calls q. Inl RequestError" "[]"]
          analyze_without_url [of "[(''url'', PStr [])]" "\<lambda>calls q. Inl RequestError" "[]"]
          analyze_without_url [of "[(''url'', PStr ''  '')]" "\<lambda>calls q. Inl RequestError" "[]"]
          space
    by simp
qed

section \<open>Facts about the calls of the channel path\<close>

lemma http_get_calls: "snd (http_get r q calls) = calls @ [q]"
  by (simp add: http_get_def)

lemma count_search_append: "count_search (xs @ ys) = count_search xs + count_search ys"
  by (simp add: count_search_def)

lemma custom_url_calls:
  "snd (get_channel_id_from_custom_url r ident calls) = calls @ [Search ident]"
  by (simp add: get_channel_id_from_custom_url_def http_get_def split: sum.splits)

lemma video_by_id_calls:
  "snd (get_video_stats_by_id r v calls) = calls @ [Videos ''statistics,snippet'' v]"
  by (simp add: get_video_stats_by_id_def http_get_def split: sum.splits)

lemma collect_videos_no_search:
  "count_search (snd (collect_videos r items videos calls)) = count_search calls"
proof (induction items arbitrary: videos calls)
  case Nil
  show ?case by simp
next
  case (Cons item items)
  show ?case
  proof (cases "bind_e (py_getitem item ''contentDetails'') (\<lambda>cd. py_getitem cd ''videoId'')")
    case (Inl e)
    then show ?thesis by simp
  next
    case (Inr video_id)
    obtain vs calls1 where g: "get_video_stats_by_id r video_id calls = (vs, calls1)"
      by (cases "get_video_stats_by_id r video_id calls")
    then have "calls1 = calls @ [Videos ''statistics,snippet'' video_id]"
      using video_by_id_calls [of r video_id calls] by simp
    then have "count_search calls1 = count_search calls"
      by (simp add: count_search_append) (simp add: count_search_def)
    with Inr g Cons.IH show ?thesis by simp
  qed
qed

lemma recent_videos_no_search:
  "count_search (snd (get_recent_videos r p calls)) = count_search calls"
proof -
  have "count_search (calls @ [PlaylistItems p 10]) = count_search calls"
    by (simp add: count_search_def)
  then show ?thesis
    by (simp add: get_recent_videos_def http_get_def collect_videos_no_search split: sum.splits)
qed

lemma fetch_channel_no_search:
  "count_search (snd (fetch_channel r cid calls)) = count_search calls"
proof -
  have c: "count_search (calls @ [Channels cid]) = count_search calls"
    by (simp add: count_search_def)
  show ?thesis
  proof (cases "bind_e (r calls (Channels cid)) channel_parts")
    case (Inl e)
    with c show ?thesis by (simp add: fetch_channel_def http_get_def)
  next
    case (Inr parts)
    show ?thesis
    proof (cases parts)
      case None
      with Inr c show ?thesis by (simp add: fetch_channel_def http_get_def)
    next
      case (Some t)
      obtain stats snippet up where t: "t = (stats, snippet, up)" by (cases t)
      obtain vs calls2 where g: "get_recent_videos r up (calls @ [Channels cid]) = (vs, calls2)"
        by (cases "get_recent_videos r up (calls @ [Channels cid])")
      then have "count_search calls2 = count_search calls"
        using recent_videos_no_search [of r up "calls @ [Channels cid]"] c by simp
      with Inr Some t g show ?thesis
        by (simp add: fetch_channel_def http_get_def split: sum.splits)
    qed
  qed
qed

text \<open>
  Claim C2. An identifier that starts with \<open>UC\<close> and has exactly 24 characters is
  resolved to itself without a remote call: the list of calls is unchanged, and the whole
  of \<open>get_channel_stats\<close> issues no search call. Every other identifier is resolved by
  exactly one search call, with the identifier as the query: it is the one call of the
  resolution and the only search call of \<open>get_channel_stats\<close>.
\<close>

theorem resolve_channel_search_calls:
  "(startswith ident ''UC'' \<and> length ident = 24 \<longrightarrow>
      resolve_channel r ident calls = (Some (PStr ident), calls)
      \<and> count_search (snd (get_channel_stats r (Some ident) calls)) = count_search calls)
   \<and> (\<not> (startswith ident ''UC'' \<and> length ident = 24) \<longrightarrow>
      snd (resolve_channel r ident calls) = calls @ [Search ident]
      \<and> count_search (snd (get_channel_stats r (Some ident) calls)) = count_search calls + 1)"
proof (intro conjI impI)
  assume c: "startswith ident ''UC'' \<and> length ident = 24"
  then show r1: "resolve_channel r ident calls = (Some (PStr ident), calls)"
    by (simp add: resolve_channel_def)
  obtain res calls2 where f: "fetch_channel r (PStr ident) calls = (res, calls2)"
    by (cases "fetch_channel r (PStr ident) calls")
  then have "count_search calls2 = count_search calls"
    using fetch_channel_no_search [of r "PStr ident" calls] by simp
  with r1 f show "count_search (snd (get_channel_stats r (Some ident) calls)) = count_search calls"
    by (simp add: get_channel_stats_def)
next
  assume n: "\<not> (startswith ident ''UC'' \<and> length ident = 24)"
  obtain cid calls1 where g: "get_channel_id_from_custom_url r ident calls = (cid, calls1)"
    by (cases "get_channel_id_from_custom_url r ident calls")
  then have c1: "calls1 = calls @ [Search ident]"
    using custom_url_calls [of r ident calls] by simp
  have nf: "(startswith ident ''UC'' \<and> length ident = 24) = False"
    using n by simp
  have rc: "resolve_channel r ident calls
            = (if \<not> truthy cid then (None, calls1) else (Some cid, calls1))"
    unfolding resolve_channel_def by (simp only: nf if_False g prod.case)
  from rc c1 show r2: "snd (resolve_channel r ident calls) = calls @ [Search ident]"
    by simp
  have s1: "count_search calls1 = count_search calls + 1"
    using c1 by (simp add: count_search_def)
  show "count_search (snd (get_channel_stats r (Some ident) calls)) = count_search calls + 1"
  proof (cases "truthy cid")
    case False
    with rc s1 show ?thesis
      by (simp add: get_channel_stats_def)
  next
    case True
    obtain res calls2 where f: "fetch_channel r cid calls1 = (res, calls2)"
      by (cases "fetch_channel r cid calls1")
    then have "count_search calls2 = count_search calls1"
      using fetch_channel_no_search [of r cid calls1] by simp
    with True rc s1 f show ?thesis
      by (simp add: get_channel_stats_def)
  qed
qed

theorem resolve_channel_search_calls_witness:
  "resolve_channel nothing_found ''UCabcdefghijklmnopqrstuv'' []
     = (Some (PStr ''UCabcdefghijklmnopqrstuv''), [])
   \<and> count_search (snd (get_channel_stats nothing_found (Some ''UCabcdefghijklmnopqrstuv'') [])) = 0
   \<and> snd (resolve_channel nothing_found ''handle'' []) = [Search ''handle'']
   \<and> count_search (snd (get_channel_stats nothing_found (Some ''handle'') [])) = 1"
proof -
  have c: "startswith ''UCabcdefghijklmnopqrstuv'' ''UC'' \<and> length ''UCabcdefghijklmnopqrstuv'' = 24"
    by simp
  have n: "\<not> (startswith ''handle'' ''UC'' \<and> length ''handle'' = 24)"
    by simp
  show ?thesis
    using resolve_channel_search_calls [of "''UCabcdefghijklmnopqrstuv''" nothing_found "[]"]
          resolve_channel_search_calls [of "''handle''" nothing_found "[]"] c n
    by (simp add: count_search_def)
qed

text \<open>
  Claim C1, at an input where it fails. The handle of
  \<open>https://www.youtube.com/@nosuchhandle\<close> is not a canonical id and the search finds no
  channel: \<open>get_channel_stats\<close> returns \<open>None\<close>, and the value \<open>analyze\<close> hands to
  \<open>jsonify\<close> is \<open>None\<close>, not a dictionary with \<open>success\<close> and \<open>error\<close>. The other failures of
  the two paths return such a dictionary.
\<close>

theorem analyze_unresolved_channel_is_none:
  "analyze nothing_found (PDict [(''url'', PStr ''https://www.youtube.com/@nosuchhandle'')]) []
     = (Inr PNone, [Search ''nosuchhandle''])
   \<and> get_channel_stats nothing_found (Some ''nosuchhandle'') []
     = (Inr PNone, [Search ''nosuchhandle''])"
  by code_simp

section \<open>Facts about the second pass of the classifier\<close>

lemma split_from_slash_hd:
  "hd (split_from ''/'' s acc) = rev acc @ takeWhile (\<lambda>c. c \<noteq> CHR ''/'') s"
  by (induction s arbitrary: acc) auto

lemma split_from_nonempty: "split_from sep s acc \<noteq> []"
  by (induction sep s acc rule: split_from.induct) auto

lemma segment_after_takeWhile:
  "segment_after marker url = takeWhile (\<lambda>c. c \<noteq> CHR ''/'') (last (py_split marker url))"
  by (simp add: segment_after_def py_split_def split_from_slash_hd)

text \<open>
  Claim C8, as stated, fails for the marker \<open>channel/\<close>. In
  \<open>https://www.youtube.com/channel/\<close> the marker is present and all four patterns fail
  (nothing follows the marker); splitting on the marker would give the empty segment, but
  the handler has no second pass for this marker and the identifier stays \<open>None\<close>.
\<close>

theorem channel_marker_without_fallback:
  "extract_channel_id ''https://www.youtube.com/channel/'' = None
   \<and> str_contains ''youtube.com/channel/'' ''https://www.youtube.com/channel/''
   \<and> segment_after ''youtube.com/channel/'' ''https://www.youtube.com/channel/'' = []
   \<and> classify ''https://www.youtube.com/channel/'' = ChannelUrl None
   \<and> classify ''https://www.youtube.com/channel/''
       \<noteq> ChannelUrl (Some (segment_after ''youtube.com/channel/'' ''https://www.youtube.com/channel/''))"
  by code_simp

text \<open>
  Claim C8, amended. When all four patterns fail, the second pass exists for the three
  custom-URL markers, tried in the order \<open>youtube.com/c/\<close>, \<open>youtube.com/@\<close>,
  \<open>youtube.com/user/\<close>: the identifier is the text after the last occurrence of the first
  of them that the URL contains, up to the next \<open>/\<close>. A URL with the marker
  \<open>youtube.com/channel/\<close> alone gets no second pass: its identifier stays \<open>None\<close>.
\<close>

theorem fallback_for_custom_urls:
  assumes "extract_channel_id url = None"
  shows "(str_contains ''youtube.com/c/'' url \<longrightarrow>
            classify url = ChannelUrl (Some (segment_after ''youtube.com/c/'' url)))
       \<and> (\<not> str_contains ''youtube.com/c/'' url \<and> str_contains ''youtube.com/@'' url \<longrightarrow>
            classify url = ChannelUrl (Some (segment_after ''youtube.com/@'' url)))
       \<and> (\<not> str_contains ''youtube.com/c/'' url \<and> \<not> str_contains ''youtube.com/@'' url
            \<and> str_contains ''youtube.com/user/'' url \<longrightarrow>
            classify url = ChannelUrl (Some (segment_after ''youtube.com/user/'' url)))
       \<and> (\<not> str_contains ''youtube.com/c/'' url \<and> \<not> str_contains ''youtube.com/@'' url
            \<and> \<not> str_contains ''youtube.com/user/'' url
            \<and> str_contains ''youtube.com/channel/'' url \<longrightarrow>
            classify url = ChannelUrl None)
       \<and> segment_after marker url
            = takeWhile (\<lambda>c. c \<noteq> CHR ''/'') (last (py_split marker url))"
  using assms
  by (simp add: classify_def any_in_def channel_identifier_of_def segment_after_takeWhile)

theorem fallback_for_custom_urls_witness:
  "classify ''https://www.youtube.com/c/?x/y'' = ChannelUrl (Some ''?x'')
   \<and> classify ''https://www.youtube.com/@/about'' = ChannelUrl (Some [])
   \<and> classify ''https://www.youtube.com/user/&a=1/b'' = ChannelUrl (Some ''&a=1'')
   \<and> classify ''https://www.youtube.com/channel/?tab=videos'' = ChannelUrl None"
proof -
  have e1: "extract_channel_id ''https://www.youtube.com/c/?x/y'' = None" by code_simp
  have e2: "extract_channel_id ''https://www.youtube.com/@/about'' = None" by code_simp
  have e3: "extract_channel_id ''https://www.youtube.com/user/&a=1/b'' = None" by code_simp
  have e4: "extract_channel_id ''https://www.youtube.com/channel/?tab=videos'' = None" by code_simp
  have c1: "str_contains ''youtube.com/c/'' ''https://www.youtube.com/c/?x/y''" by code_simp
  have c2: "\<not> str_contains ''youtube.com/c/'' ''https://www.youtube.com/@/about''
            \<and> str_contains ''youtube.com/@'' ''https://www.youtube.com/@/about''" by code_simp
  have c3: "\<not> str_contains ''youtube.com/c/'' ''https://www.youtube.com/user/&a=1/b''
            \<and> \<not> str_contains ''youtube.com/@'' ''https://www.youtube.com/user/&a=1/b''
            \<and> str_contains ''youtube.com/user/'' ''https://www.youtube.com/user/&a=1/b''" by code_simp
  have c4: "\<not> str_contains ''youtube.com/c/'' ''https://www.youtube.com/channel/?tab=videos''
            \<and> \<not> str_contains ''youtube.com/@'' ''https://www.youtube.com/channel/?tab=videos''
            \<and> \<not> str_contains ''youtube.com/user/'' ''https://www.youtube.com/channel/?tab=videos''
            \<and> str_contains ''youtube.com/channel/'' ''https://www.youtube.com/channel/?tab=videos''"
    by code_simp
  have s1: "segment_after ''youtube.com/c/'' ''https://www.youtube.com/c/?x/y'' = ''?x''" by code_simp
  have s2: "segment_after ''youtube.com/@'' ''https://www.youtube.com/@/about'' = []" by code_simp
  have s3: "segment_after ''youtube.com/user/'' ''https://www.youtube.com/user/&a=1/b'' = ''&a=1''" by code_simp
  show ?thesis
    using fallback_for_custom_urls [OF e1, of "''youtube.com/c/''"]
          fallback_for_custom_urls [OF e2, of "''youtube.com/@''"]
          fallback_for_custom_urls [OF e3, of "''youtube.com/user/''"]
          fallback_for_custom_urls [OF e4, of "''youtube.com/channel/''"]
          c1 c2 c3 c4 s1 s2 s3
    by simp
qed

section \<open>Facts about the video path\<close>

lemma match_id11_length: "match_id11 alts s = Some g \<Longrightarrow> length g = 11"
  by (induction alts) (auto simp: Let_def split: if_splits)

lemma search_id11_length: "search_id11 alts s = Some g \<Longrightarrow> length g = 11"
  by (induction s) (auto split: option.splits dest: match_id11_length)

lemma first_match_cases: "first_match ms = Some g \<Longrightarrow> Some g \<in> set ms"
  by (induction ms rule: first_match.induct) auto

lemma extract_video_id_length: "extract_video_id url = Some g \<Longrightarrow> length g = 11"
  by (auto simp: extract_video_id_def dest!: first_match_cases dest: search_id11_length [OF sym])

lemma video_result_any_comments:
  assumes "video_result stats snippet cd cs = Inr res0"
  shows "\<exists>res. video_result stats snippet cd [] = Inr res
          \<and> py_getitem res ''success'' = Inr (PBool True)
          \<and> py_getitem res ''comments_data'' = Inr (PList [])"
  using assms
  by (auto simp: video_result_def bind_e_def split: sum.splits)

text \<open>
  Claim C7. Let the primary fetch of a video succeed: the response holds the video
  resource, and the resource is complete, so that the result can be assembled (with some
  list of comments). If the fetch of the comments fails, because the call raises or
  because its response cannot be read, then \<open>get_video_stats\<close> still returns the assembled
  result, after the two calls: \<open>success\<close> is true and \<open>comments_data\<close> is the empty list.
\<close>

theorem comment_failure_keeps_video_result:
  assumes vid: "extract_video_id url = Some video_id"
    and primary: "bind_e (r calls (Videos ''statistics,snippet,contentDetails'' (PStr video_id)))
                    video_parts = Inr (Some (stats, snippet, content_details))"
    and complete: "video_result stats snippet content_details cs = Inr res0"
    and fails: "bind_e (r (calls @ [Videos ''statistics,snippet,contentDetails'' (PStr video_id)])
                          (CommentThreads video_id 50)) comments_of = Inl e"
  shows "\<exists>res. get_video_stats r url calls
                 = (res, calls @ [Videos ''statistics,snippet,contentDetails'' (PStr video_id),
                                  CommentThreads video_id 50])
          \<and> video_result stats snippet content_details [] = Inr res
          \<and> py_getitem res ''success'' = Inr (PBool True)
          \<and> py_getitem res ''comments_data'' = Inr (PList [])"
proof -
  from vid have ne: "video_id \<noteq> []"
    using extract_video_id_length [of url video_id] by auto
  from complete obtain res where
    res: "video_result stats snippet content_details [] = Inr res"
    and ok: "py_getitem res ''success'' = Inr (PBool True)"
    and empty: "py_getitem res ''comments_data'' = Inr (PList [])"
    using video_result_any_comments by blast
  have comments: "get_video_comments r video_id
                    (calls @ [Videos ''statistics,snippet,contentDetails'' (PStr video_id)])
                  = ([], calls @ [Videos ''statistics,snippet,contentDetails'' (PStr video_id),
                                  CommentThreads video_id 50])"
    using fails by (simp add: get_video_comments_def http_get_def)
  have "get_video_stats r url calls
          = (res, calls @ [Videos ''statistics,snippet,contentDetails'' (PStr video_id),
                           CommentThreads video_id 50])"
    using vid ne primary comments res
    by (simp add: get_video_stats_def http_get_def)
  with res ok empty show ?thesis by blast
qed

theorem comment_failure_keeps_video_result_witness:
  "get_video_stats comments_down ''https://youtu.be/ABCDEFGHIJK'' []
     = (example_result,
        [Videos ''statistics,snippet,contentDetails'' (PStr ''ABCDEFGHIJK''),
         CommentThreads ''ABCDEFGHIJK'' 50])
   \<and> py_getitem example_result ''success'' = Inr (PBool True)
   \<and> py_getitem example_result ''comments_data'' = Inr (PList [])"
proof -
  have vid: "extract_video_id ''https://youtu.be/ABCDEFGHIJK'' = Some ''ABCDEFGHIJK''"
    by code_simp
  have primary: "bind_e (comments_down []
                   (Videos ''statistics,snippet,contentDetails'' (PStr ''ABCDEFGHIJK'')))
                   video_parts = Inr (Some (example_stats, example_snippet, example_details))"
    by code_simp
  have complete: "video_result example_stats example_snippet example_details [] = Inr example_result"
    by code_simp
  have fails: "bind_e (comments_down
                   ([] @ [Videos ''statistics,snippet,contentDetails'' (PStr ''ABCDEFGHIJK'')])
                   (CommentThreads ''ABCDEFGHIJK'' 50)) comments_of = Inl RequestError"
    by code_simp
  show ?thesis
    using comment_failure_keeps_video_result [OF vid primary complete fails] complete
    by auto
qed

section \<open>Facts about the classifier\<close>

lemma startswith_set: "startswith s p \<Longrightarrow> set p \<subseteq> set s"
  by (induction s p rule: startswith.induct) auto

lemma str_contains_set: "str_contains m s \<Longrightarrow> set m \<subseteq> set s"
proof (induction s)
  case Nil
  then show ?case by simp
next
  case (Cons c cs)
  from Cons.prems have "startswith (c # cs) m \<or> str_contains m cs" by simp
  then show ?case
  proof
    assume "startswith (c # cs) m"
    then show ?thesis by (rule startswith_set)
  next
    assume "str_contains m cs"
    then have "set m \<subseteq> set cs" by (rule Cons.IH)
    then show ?thesis by auto
  qed
qed

lemma str_contains_absent: "c \<in> set m \<Longrightarrow> c \<notin> set s \<Longrightarrow> str_contains m s = False"
  using str_contains_set by blast

lemma search_segment_absent: "c \<in> set lit \<Longrightarrow> c \<notin> set s \<Longrightarrow> search_segment lit s = None"
proof (induction s)
  case Nil
  show ?case by simp
next
  case (Cons x xs)
  then have "\<not> startswith (x # xs) lit"
    using startswith_set by blast
  with Cons show ?case by simp
qed

lemma takeWhile_all: "list_all P xs \<Longrightarrow> takeWhile P xs = xs"
  by (simp add: list_all_iff)

lemma no_slash: "list_all not_delim s \<Longrightarrow> CHR ''/'' \<notin> set s"
  by (auto simp: list_all_iff not_delim_def)

lemma no_dot: "list_all id_char s \<Longrightarrow> CHR ''.'' \<notin> set s"
  by (auto simp: list_all_iff id_char_def)


lemma scheme_cases:
  assumes "pre \<in> set schemes"
  obtains "pre = []" | "pre = ''https://''" | "pre = ''http://''" | "pre = ''https://www.''"
    | "pre = ''http://www.''" | "pre = ''https://m.''"
  using assms unfolding schemes_def by auto

lemma channel_shape:
  assumes "pre \<in> set schemes" "cid \<noteq> []" "list_all not_delim cid"
  shows "classify (pre @ ''youtube.com/channel/'' @ cid) = ChannelUrl (Some cid)"
  using assms(1)
  by (cases rule: scheme_cases)
     (simp_all add: assms(2,3) classify_def any_in_def channel_identifier_of_def
        extract_channel_id_def takeWhile_all)

lemma handle_shape:
  assumes "pre \<in> set schemes" "h \<noteq> []" "list_all not_delim h"
  shows "classify (pre @ ''youtube.com/@'' @ h) = ChannelUrl (Some h)"
  using assms(1)
  by (cases rule: scheme_cases)
     (simp_all add: assms(2,3) no_slash [OF assms(3)] classify_def any_in_def
        channel_identifier_of_def extract_channel_id_def takeWhile_all
        search_segment_absent [of "CHR ''/''"])

lemma watch_shape:
  assumes "pre \<in> set schemes" "length vid = 11" "list_all id_char vid"
  shows "classify (pre @ ''youtube.com/watch?v='' @ vid) = VideoUrl
         \<and> extract_video_id (pre @ ''youtube.com/watch?v='' @ vid) = Some vid"
  using assms(1)
  by (cases rule: scheme_cases)
     (simp_all add: assms(2,3) no_dot [OF assms(3)] classify_def any_in_def
        extract_video_id_def id_char_def str_contains_absent [of "CHR ''.''"])

lemma short_link_shape:
  assumes "pre \<in> set schemes" "length vid = 11" "list_all id_char vid"
  shows "classify (pre @ ''youtu.be/'' @ vid) = VideoUrl
         \<and> extract_video_id (pre @ ''youtu.be/'' @ vid) = Some vid"
  using assms(1)
  by (cases rule: scheme_cases)
     (simp_all add: assms(2,3) no_dot [OF assms(3)] classify_def any_in_def
        extract_video_id_def id_char_def str_contains_absent [of "CHR ''.''"])

lemma shorts_shape:
  assumes "pre \<in> set schemes" "length vid = 11" "list_all id_char vid"
  shows "classify (pre @ ''youtube.com/shorts/'' @ vid) = VideoUrl
         \<and> extract_video_id (pre @ ''youtube.com/shorts/'' @ vid) = Some vid"
  using assms(1)
  by (cases rule: scheme_cases)
     (simp_all add: assms(2,3) no_dot [OF assms(3)] classify_def any_in_def
        extract_video_id_def id_char_def str_contains_absent [of "CHR ''.''"])

text \<open>
  Claim C3. For each of the five URL shapes, classification followed by extraction
  recovers the embedded identifier: a channel URL \<open>youtube.com/channel/ID\<close> and a handle
  URL \<open>youtube.com/@HANDLE\<close> are classified as channel URLs with exactly that identifier
  (any non-empty identifier without \<open>/\<close>, \<open>?\<close>, \<open>&\<close>, so also \<open>UC...\<close>); the video URLs
  \<open>youtube.com/watch?v=ID\<close>, \<open>youtu.be/ID\<close> and \<open>youtube.com/shorts/ID\<close>, with an id of 11
  characters of \<open>[0-9A-Za-z_-]\<close>, are classified as video URLs and \<open>extract_video_id\<close>
  returns the id. Before the host name stands one of \<^const>\<open>schemes\<close>.
\<close>

theorem classifier_round_trip:
  assumes "pre \<in> set schemes"
    and "ident \<noteq> []" and "list_all not_delim ident"
    and "length vid = 11" and "list_all id_char vid"
  shows "classify (pre @ ''youtube.com/channel/'' @ ident) = ChannelUrl (Some ident)
       \<and> classify (pre @ ''youtube.com/@'' @ ident) = ChannelUrl (Some ident)
       \<and> classify (pre @ ''youtube.com/watch?v='' @ vid) = VideoUrl
       \<and> extract_video_id (pre @ ''youtube.com/watch?v='' @ vid) = Some vid
       \<and> classify (pre @ ''youtu.be/'' @ vid) = VideoUrl
       \<and> extract_video_id (pre @ ''youtu.be/'' @ vid) = Some vid
       \<and> classify (pre @ ''youtube.com/shorts/'' @ vid) = VideoUrl
       \<and> extract_video_id (pre @ ''youtube.com/shorts/'' @ vid) = Some vid"
  using channel_shape [OF assms(1,2,3)] handle_shape [OF assms(1,2,3)]
        watch_shape [OF assms(1,4,5)] short_link_shape [OF assms(1,4,5)]
        shorts_shape [OF assms(1,4,5)]
  by simp

theorem classifier_round_trip_witness:
  "classify ''https://www.youtube.com/channel/UCabcdefghijklmnopqrstuv''
     = ChannelUrl (Some ''UCabcdefghijklmnopqrstuv'')
   \<and> classify ''https://www.youtube.com/@handlename'' = ChannelUrl (Some ''handlename'')
   \<and> classify ''https://www.youtube.com/watch?v=ABCDEFGHIJK'' = VideoUrl
   \<and> extract_video_id ''https://www.youtube.com/watch?v=ABCDEFGHIJK'' = Some ''ABCDEFGHIJK''
   \<and> classify ''youtu.be/ABCDEFGHIJK'' = VideoUrl
   \<and> extract_video_id ''youtu.be/ABCDEFGHIJK'' = Some ''ABCDEFGHIJK''
   \<and> classify ''https://www.youtube.com/shorts/ABCDEFGHIJK'' = VideoUrl
   \<and> extract_video_id ''https://www.youtube.com/shorts/ABCDEFGHIJK'' = Some ''ABCDEFGHIJK''"
proof -
  have p1: "''https://www.'' \<in> set schemes" and p2: "[] \<in> set schemes"
    by (simp_all add: schemes_def)
  have c: "''UCabcdefghijklmnopqrstuv'' \<noteq> []" "list_all not_delim ''UCabcdefghijklmnopqrstuv''"
    by (simp_all add: not_delim_def)
  have h: "''handlename'' \<noteq> []" "list_all not_delim ''handlename''"
    by (simp_all add: not_delim_def)
  have v: "length ''ABCDEFGHIJK'' = 11" "list_all id_char ''ABCDEFGHIJK''"
    by (simp_all add: id_char_def)
  show ?thesis
    using classifier_round_trip [OF p1 c v] classifier_round_trip [OF p1 h v]
          classifier_round_trip [OF p2 c v]
    by simp
qed

section \<open>Facts about rounding to a float\<close>

lemma bitlen_nonneg: "0 \<le> bitlen n"
proof (induction n rule: bitlen.induct)
  case (1 n)
  show ?case
  proof (cases "n \<le> 0")
    case True
    then show ?thesis by (simp add: bitlen.simps)
  next
    case False
    with "1.IH" have "0 \<le> bitlen (n div 2)" by simp
    with False show ?thesis by (simp add: bitlen.simps [of n])
  qed
qed

lemma bitlen_step: "0 < n \<Longrightarrow> bitlen n = 1 + bitlen (n div 2)"
  by (simp add: bitlen.simps [of n])

lemma bitlen_pos: "0 < n \<Longrightarrow> 1 \<le> bitlen n"
  using bitlen_nonneg [of "n div 2"] by (simp add: bitlen_step)

lemma bitlen_bounds:
  "0 < n \<Longrightarrow> 2 ^ nat (bitlen n - 1) \<le> n \<and> n < 2 ^ nat (bitlen n)"
proof (induction n rule: bitlen.induct)
  case (1 n)
  show ?case
  proof (cases "n = 1")
    case True
    then show ?thesis by (simp add: bitlen.simps)
  next
    case False
    with "1.prems" have h: "0 < n div 2" by simp
    with "1.IH" "1.prems" have ih: "2 ^ nat (bitlen (n div 2) - 1) \<le> n div 2"
      "n div 2 < 2 ^ nat (bitlen (n div 2))" by simp_all
    have b: "bitlen n = 1 + bitlen (n div 2)"
      using "1.prems" by (rule bitlen_step)
    have p: "1 \<le> bitlen (n div 2)" using h by (rule bitlen_pos)
    have e1: "nat (bitlen n - 1) = Suc (nat (bitlen (n div 2) - 1))"
      using b p by simp
    have e2: "nat (bitlen n) = Suc (nat (bitlen (n div 2)))"
      using b p by simp
    from ih show ?thesis
      unfolding e1 e2 by simp linarith
  qed
qed

text \<open>Powers of two with an integer exponent, in the reals.\<close>

lemma pow2_split: "real_of_int (2 ^ nat k) = 2 powi k * real_of_int (2 ^ nat (- k))"
proof (cases "0 \<le> k")
  case True
  then show ?thesis by (simp add: power_int_def)
next
  case False
  have "((1::real) / 2) ^ nat (- k) * 2 ^ nat (- k) = ((1 / 2) * 2) ^ nat (- k)"
    by (simp only: power_mult_distrib)
  then have "((1::real) / 2) ^ nat (- k) * 2 ^ nat (- k) = 1"
    by simp
  with False show ?thesis by (simp add: power_int_def)
qed

lemma scaled_le_iff:
  "(d * 2 ^ nat k \<le> n * 2 ^ nat (- k)) \<longleftrightarrow> (real_of_int d * 2 powi k \<le> real_of_int n)"
proof -
  have pos: "0 < real_of_int (2 ^ nat (- k))" by simp
  have "(d * 2 ^ nat k \<le> n * 2 ^ nat (- k))
        \<longleftrightarrow> (real_of_int (d * 2 ^ nat k) \<le> real_of_int (n * 2 ^ nat (- k)))"
    by (simp only: of_int_le_iff)
  also have "\<dots> \<longleftrightarrow> (real_of_int d * (2 powi k * real_of_int (2 ^ nat (- k)))
                      \<le> real_of_int n * real_of_int (2 ^ nat (- k)))"
    by (simp only: of_int_mult pow2_split [of k])
  also have "\<dots> \<longleftrightarrow> ((real_of_int d * 2 powi k) * real_of_int (2 ^ nat (- k))
                      \<le> real_of_int n * real_of_int (2 ^ nat (- k)))"
    by (simp only: mult.assoc)
  also have "\<dots> \<longleftrightarrow> (real_of_int d * 2 powi k \<le> real_of_int n)"
    using pos by (rule mult_le_cancel_right_pos)
  finally show ?thesis .
qed

lemma scaled_less_iff:
  "(n * 2 ^ nat (- k) < d * 2 ^ nat k) \<longleftrightarrow> (real_of_int n < real_of_int d * 2 powi k)"
  using scaled_le_iff [of d k n] by (simp add: not_le [symmetric])

lemma bitlen_real:
  assumes "0 < n"
  shows "2 powi (bitlen n - 1) \<le> real_of_int n" and "real_of_int n < 2 powi (bitlen n)"
proof -
  from bitlen_bounds [OF assms] have a: "2 ^ nat (bitlen n - 1) \<le> n" and b: "n < 2 ^ nat (bitlen n)"
    by simp_all
  have p: "1 \<le> bitlen n" using assms by (rule bitlen_pos)
  from a have "real_of_int (2 ^ nat (bitlen n - 1)) \<le> real_of_int n"
    by (simp only: of_int_le_iff)
  with p show "2 powi (bitlen n - 1) \<le> real_of_int n"
    by (simp add: power_int_def)
  from b have "real_of_int n < real_of_int (2 ^ nat (bitlen n))"
    by (simp only: of_int_less_iff)
  with p show "real_of_int n < 2 powi (bitlen n)"
    by (simp add: power_int_def)
qed

lemma ilog2_ratio_bounds:
  assumes "0 < n" "0 < d"
  shows "real_of_int d * 2 powi (ilog2_ratio n d) \<le> real_of_int n"
    and "real_of_int n < real_of_int d * 2 powi (ilog2_ratio n d + 1)"
proof -
  let ?k = "bitlen n - bitlen d"
  note bn = bitlen_real [OF assms(1)]
  note bd = bitlen_real [OF assms(2)]
  have dpos: "0 < real_of_int d" using assms(2) by simp
  have up: "real_of_int n < real_of_int d * 2 powi (?k + 1)"
  proof -
    have "real_of_int n < 2 powi (bitlen n)" by (rule bn(2))
    also have "\<dots> = 2 powi (bitlen d - 1) * 2 powi (?k + 1)"
      by (simp add: power_int_add [symmetric])
    also have "\<dots> \<le> real_of_int d * 2 powi (?k + 1)"
      using bd(1) by (simp add: mult_right_mono)
    finally show ?thesis .
  qed
  have low: "real_of_int d * 2 powi (?k - 1) \<le> real_of_int n"
  proof -
    have "real_of_int d * 2 powi (?k - 1) \<le> 2 powi (bitlen d) * 2 powi (?k - 1)"
      using bd(2) by (simp add: mult_right_mono)
    also have "\<dots> = 2 powi (bitlen n - 1)"
      by (simp add: power_int_add [symmetric])
    also have "\<dots> \<le> real_of_int n" by (rule bn(1))
    finally show ?thesis .
  qed
  show "real_of_int d * 2 powi (ilog2_ratio n d) \<le> real_of_int n"
    using low by (simp add: ilog2_ratio_def Let_def scaled_le_iff)
  show "real_of_int n < real_of_int d * 2 powi (ilog2_ratio n d + 1)"
    using up by (simp add: ilog2_ratio_def Let_def scaled_le_iff not_le)
qed


lemma bitlen_le:
  assumes "m < 2 ^ k"
  shows "bitlen m \<le> int k"
proof (cases "0 < m")
  case False
  then show ?thesis by (simp add: bitlen.simps)
next
  case True
  from bitlen_bounds [OF True] assms have "(2::int) ^ nat (bitlen m - 1) < 2 ^ k"
    by linarith
  then have "nat (bitlen m - 1) < k"
    by simp
  then show ?thesis by linarith
qed

lemma div_half_even_bounds:
  assumes "0 \<le> x" "0 < y"
  shows "x div y \<le> div_half_even x y" and "div_half_even x y \<le> x div y + 1"
  by (simp_all add: div_half_even_def Let_def)

lemma div_half_even_nonneg: "0 \<le> x \<Longrightarrow> 0 < y \<Longrightarrow> 0 \<le> div_half_even x y"
  using div_half_even_bounds(1) [of x y] pos_imp_zdiv_nonneg_iff [of y x] by linarith

lemma div_half_even_le:
  assumes "0 \<le> x" "0 < y" "x < y * B"
  shows "div_half_even x y \<le> B"
proof -
  have "0 \<le> x mod y" using assms(2) by simp
  moreover have "x = y * (x div y) + x mod y" by simp
  ultimately have "y * (x div y) \<le> x" by linarith
  with assms(3) have "y * (x div y) < y * B" by linarith
  with assms(2) have "x div y < B" by (simp add: mult_less_cancel_left_pos)
  with div_half_even_bounds(2) [OF assms(1,2)] show ?thesis by linarith
qed

lemma div_half_even_exact: "y dvd x \<Longrightarrow> 0 < y \<Longrightarrow> div_half_even x y = x div y"
  by (auto simp: div_half_even_def Let_def)

lemma pow2_exp_less:
  assumes "(2::real) powi e < 2 powi k"
  shows "e < k"
proof (rule ccontr)
  assume "\<not> e < k"
  then have "k \<le> e" by simp
  then have "(2::real) powi k \<le> 2 powi e"
    by (simp add: power_int_increasing)
  with assms show False by simp
qed

text \<open>No overflow: a quotient below \<open>2\<^sup>1\<^sup>0\<^sup>2\<^sup>3\<close> rounds to a finite double.\<close>

lemma round_double_finite:
  assumes "0 < a" "0 < b" "real_of_int a < 2 ^ 1023 * real_of_int b"
  shows "\<exists>m q. round_double s a b = Finite s m q"
proof -
  let ?e = "ilog2_ratio a b"
  let ?q = "max (?e - 52) (- 1074)"
  let ?m = "div_half_even (a * 2 ^ nat (- ?q)) (b * 2 ^ nat ?q)"
  note eb = ilog2_ratio_bounds [OF assms(1,2)]
  have bpos: "0 < real_of_int b" using assms(2) by simp
  have "real_of_int b * 2 powi ?e < real_of_int b * 2 powi 1023"
    using eb(1) assms(3) by (simp add: mult.commute)
  then have "(2::real) powi ?e < 2 powi 1023"
    using bpos by simp
  then have e: "?e < 1023" by (rule pow2_exp_less)
  then have q: "?q \<le> 970" by simp
  have "real_of_int b * 2 powi (?e + 1) \<le> real_of_int b * 2 powi (?q + 53)"
    using bpos by (simp add: power_int_increasing)
  with eb(2) have "real_of_int a < real_of_int b * 2 powi (?q + 53)"
    by linarith
  also have "\<dots> = real_of_int (b * 2 ^ 53) * 2 powi ?q"
    by (simp add: power_int_add)
  finally have "a * 2 ^ nat (- ?q) < (b * 2 ^ 53) * 2 ^ nat ?q"
    by (simp only: scaled_less_iff)
  then have lt: "a * 2 ^ nat (- ?q) < (b * 2 ^ nat ?q) * 2 ^ 53"
    by (simp add: mult_ac)
  have "?m \<le> 2 ^ 53"
    using assms(1,2) lt by (intro div_half_even_le) simp_all
  then have "?m < 2 ^ 54" by simp
  then have "bitlen ?m \<le> 54" using bitlen_le [of ?m 54] by simp
  with q have "\<not> 1024 < bitlen ?m + ?q" by linarith
  with assms(1) show ?thesis
    by (simp add: round_double_def Let_def)
qed

lemma true_div_int_finite:
  assumes "0 \<le> a" "0 < b" "real_of_int a < 2 ^ 1023 * real_of_int b"
  shows "\<exists>q. true_div_int a b = Inr q"
proof (cases "a = 0")
  case True
  with assms(2) show ?thesis by (simp add: true_div_int_def round_double_def)
next
  case False
  with assms(1) have "0 < a" by simp
  from round_double_finite [OF this assms(2,3)] obtain m q
    where "round_double False a b = Finite False m q" by blast
  with assms(1,2) show ?thesis by (simp add: true_div_int_def)
qed

lemma round_double_in_range:
  assumes "0 \<le> n" "0 < d"
  shows "in_double_range (round_double s n d)"
proof (cases "n = 0")
  case True
  then show ?thesis by (simp add: round_double_def in_double_range_def bitlen.simps)
next
  case False
  let ?q = "max (ilog2_ratio n d - 52) (- 1074)"
  have "0 \<le> div_half_even (n * 2 ^ nat (- ?q)) (d * 2 ^ nat ?q)"
    using assms by (intro div_half_even_nonneg) simp_all
  with False show ?thesis
    by (simp add: round_double_def in_double_range_def Let_def)
qed

lemma int_div_less:
  assumes "0 < y" "x < B * y"
  shows "x div y < (B::int)"
proof -
  have "0 \<le> x mod y" using assms(1) by simp
  moreover have "x = y * (x div y) + x mod y" by simp
  ultimately have "y * (x div y) \<le> x" by linarith
  with assms(2) have "y * (x div y) < y * B" by (simp add: mult.commute)
  with assms(1) show ?thesis by (simp add: mult_less_cancel_left_pos)
qed

lemma signed_abs: "0 \<le> m \<Longrightarrow> \<bar>signed s m\<bar> = m"
  by (simp add: signed_def)

lemma int_of_float_bound:
  assumes "in_double_range x" "int_of_float x = Inr k"
  shows "\<bar>k\<bar> < 2 ^ 1024"
proof (cases x)
  case (Finite s m e)
  with assms(1) have m0: "0 \<le> m" and be: "bitlen m + e \<le> 1024"
    by (simp_all add: in_double_range_def)
  let ?v = "m * 2 ^ nat e div 2 ^ nat (- e)"
  have v0: "0 \<le> ?v" using m0 by (simp add: pos_imp_zdiv_nonneg_iff)
  from Finite assms(2) have k: "k = signed s ?v" by simp
  have "?v < 2 ^ 1024"
  proof (cases "m = 0")
    case True
    then show ?thesis by simp
  next
    case False
    with m0 have mp: "0 < m" by simp
    from bitlen_bounds [OF mp] have mb: "m < 2 ^ nat (bitlen m)" by simp
    have bp: "1 \<le> bitlen m" using mp by (rule bitlen_pos)
    show ?thesis
    proof (cases "0 \<le> e")
      case True
      have "m * 2 ^ nat e < 2 ^ nat (bitlen m) * 2 ^ nat e"
        using mb by simp
      also have "\<dots> = 2 ^ (nat (bitlen m) + nat e)"
        by (simp add: power_add)
      also have "\<dots> \<le> 2 ^ 1024"
        using be bp True by (intro power_increasing) simp_all
      finally show ?thesis using True by simp
    next
      case False
      have "m < 2 ^ nat (bitlen m)" by (rule mb)
      also have "\<dots> \<le> (2::int) ^ (1024 + nat (- e))"
        using be bp False by (intro power_increasing) simp_all
      also have "\<dots> = 2 ^ 1024 * 2 ^ nat (- e)"
        by (simp add: power_add)
      finally have "m < 2 ^ 1024 * 2 ^ nat (- e)" .
      then have "m div 2 ^ nat (- e) < 2 ^ 1024"
        by (intro int_div_less) simp_all
      with False show ?thesis by simp
    qed
  qed
  with k v0 show ?thesis by (simp add: signed_abs)
next
  case (Infinity s)
  with assms(2) show ?thesis by simp
next
  case NaN
  with assms(2) show ?thesis by simp
qed


lemma scan_digits_digits: "scan_digits s = (ds, r) \<Longrightarrow> list_all is_digit ds"
  by (induction s arbitrary: ds r rule: scan_digits.induct)
     (auto split: if_splits prod.splits)

lemma digits_value_foldl_nonneg:
  "list_all is_digit ds \<Longrightarrow> 0 \<le> a \<Longrightarrow> 0 \<le> foldl (\<lambda>a c. 10 * a + digit_val c) a ds"
proof (induction ds arbitrary: a)
  case Nil
  then show ?case by simp
next
  case (Cons c cs)
  from Cons.prems(1) have "0 \<le> digit_val c"
    by (simp add: is_digit_def digit_val_def Let_def)
  with Cons.prems(2) have "0 \<le> 10 * a + digit_val c" by simp
  with Cons.IH Cons.prems(1) show ?case by simp
qed

lemma digits_value_nonneg: "list_all is_digit ds \<Longrightarrow> 0 \<le> digits_value ds"
  by (simp add: digits_value_def digits_value_foldl_nonneg)

lemma parse_float_in_range:
  assumes "parse_float t = Inr f"
  shows "in_double_range f"
proof -
  obtain neg u where su: "take_sign (strip_number t) = (neg, u)"
    by (cases "take_sign (strip_number t)")
  obtain ip r1 where s1: "scan_digits u = (ip, r1)"
    by (cases "scan_digits u")
  obtain fp r2 where s2: "(case r1 of [] \<Rightarrow> ([], [])
                 | c # cs \<Rightarrow> if c = CHR ''.'' then scan_digits cs else ([], c # cs)) = (fp, r2)"
    by (cases "(case r1 of [] \<Rightarrow> ([], [])
                 | c # cs \<Rightarrow> if c = CHR ''.'' then scan_digits cs else ([], c # cs))")
  have dip: "list_all is_digit ip" using s1 by (rule scan_digits_digits)
  have dfp: "list_all is_digit fp"
    using s2 by (auto split: list.splits if_splits dest: scan_digits_digits)
  have nn: "0 \<le> digits_value (ip @ fp)"
    using dip dfp by (intro digits_value_nonneg) simp
  have rd: "in_double_range (round_double neg (digits_value (ip @ fp) * 10 ^ a) (10 ^ b))"
    for a b :: nat
    using nn by (intro round_double_in_range) simp_all
  have special: "in_double_range (Infinity neg)" "in_double_range NaN"
    by (simp_all add: in_double_range_def)
  from assms su s1 s2 show ?thesis
    unfolding parse_float_def
    by (auto simp: Let_def rd special split: if_splits option.splits)
qed

lemma numeric_value_bound:
  assumes "float_in_range x" "numeric_value x = Inr n"
  shows "\<bar>n\<bar> < 2 ^ 1024"
proof -
  from assms(2) obtain f where f: "py_float x = Inr f" and n: "int_of_float f = Inr n"
    by (auto simp: numeric_value_def bind_e_def split: sum.splits)
  have "in_double_range f"
  proof (cases x)
    case (PFloat y)
    with f assms(1) show ?thesis by simp
  next
    case (PInt k)
    with f have "float_of_int k = Inr f" by simp
    then have "f = round_double (k < 0) \<bar>k\<bar> 1"
      by (auto simp: float_of_int_def split: pyfloat.splits)
    then show ?thesis using round_double_in_range [of "\<bar>k\<bar>" 1] by simp
  next
    case (PBool b)
    with f have "float_of_int (if b then 1 else 0) = Inr f" by simp
    then have "f = round_double False (if b then 1 else 0) 1"
      by (auto simp: float_of_int_def split: pyfloat.splits if_splits)
    then show ?thesis using round_double_in_range [of "if b then 1 else 0" 1] by simp
  next
    case (PStr t)
    with f show ?thesis by (simp add: parse_float_in_range)
  qed (use f in simp_all)
  then show ?thesis using n by (rule int_of_float_bound)
qed

lemma bitlen_one: "bitlen 1 = 1"
  by (simp add: bitlen.simps)

lemma ilog2_ratio_one:
  assumes "0 < a"
  shows "ilog2_ratio a 1 = bitlen a - 1"
proof -
  have p: "1 \<le> bitlen a" using assms by (rule bitlen_pos)
  from bitlen_bounds [OF assms] have "2 ^ nat (bitlen a - 1) \<le> a" by simp
  with p show ?thesis
    by (simp add: ilog2_ratio_def bitlen_one Let_def)
qed

lemma div_half_even_one: "div_half_even x 1 = x"
  by (simp add: div_half_even_def)

lemma signed_abs_self: "signed (k < 0) \<bar>k\<bar> = k"
  by (simp add: signed_def)

lemma numeric_value_int_exact:
  assumes "\<bar>k\<bar> < 2 ^ 53"
  shows "numeric_value (PInt k) = Inr k"
proof (cases "k = 0")
  case True
  then show ?thesis
    by (simp add: numeric_value_def bind_e_def float_of_int_def round_double_def signed_def)
next
  case False
  let ?a = "\<bar>k\<bar>"
  let ?e = "bitlen ?a - 1"
  let ?j = "nat (52 - ?e)"
  from False have a: "0 < ?a" by simp
  have e: "ilog2_ratio ?a 1 = ?e" using a by (rule ilog2_ratio_one)
  have b1: "1 \<le> bitlen ?a" using a by (rule bitlen_pos)
  have b2: "bitlen ?a \<le> 53" using bitlen_le [of ?a 53] assms by simp
  have q: "max (?e - 52) (- 1074) = ?e - 52" using b1 by simp
  have nq: "nat (- (?e - 52)) = ?j" by simp
  have pq: "nat (?e - 52) = 0" using b2 by simp
  have m: "div_half_even (?a * 2 ^ ?j) (1 * 2 ^ 0) = ?a * 2 ^ ?j"
    by (simp add: div_half_even_one)
  from bitlen_bounds [OF a] have "?a < 2 ^ nat (bitlen ?a)" by simp
  then have "?a * 2 ^ ?j < 2 ^ nat (bitlen ?a) * 2 ^ ?j" by simp
  also have "\<dots> = 2 ^ (nat (bitlen ?a) + ?j)" by (simp add: power_add)
  also have "nat (bitlen ?a) + ?j = 53" using b1 b2 by simp
  finally have "?a * 2 ^ ?j < 2 ^ 53" .
  then have "bitlen (?a * 2 ^ ?j) \<le> 53" using bitlen_le [of "?a * 2 ^ ?j" 53] by simp
  with b2 have fin: "\<not> 1024 < bitlen (?a * 2 ^ ?j) + (?e - 52)" by linarith
  have rd: "round_double (k < 0) ?a 1 = Finite (k < 0) (?a * 2 ^ ?j) (?e - 52)"
    unfolding round_double_def e Let_def q nq pq m using False fin by simp
  have "int_of_float (Finite (k < 0) (?a * 2 ^ ?j) (?e - 52))
        = Inr (signed (k < 0) (?a * 2 ^ ?j * 2 ^ nat (?e - 52) div 2 ^ nat (- (?e - 52))))"
    by (simp only: int_of_float.simps)
  also have "\<dots> = Inr (signed (k < 0) (?a * 2 ^ ?j div 2 ^ ?j))"
    by (simp only: nq pq power_0 mult_1_right)
  also have "?a * 2 ^ ?j div 2 ^ ?j = ?a"
    by simp
  finally have "int_of_float (Finite (k < 0) (?a * 2 ^ ?j) (?e - 52)) = Inr k"
    by (simp only: signed_abs_self)
  moreover have "float_of_int k = Inr (Finite (k < 0) (?a * 2 ^ ?j) (?e - 52))"
    by (simp only: float_of_int_def rd pyfloat.case)
  ultimately show ?thesis
    by (simp only: numeric_value_def py_float.simps bind_e_def sum.case)
qed

lemma round_double_Finite:
  assumes "n \<noteq> 0" "round_double s n d = Finite s' m q"
  shows "q = max (ilog2_ratio n d - 52) (- 1074)"
    and "m = div_half_even (n * 2 ^ nat (- q)) (d * 2 ^ nat q)"
    and "s' = s"
  using assms by (auto simp: round_double_def Let_def split: if_splits)

lemma numeric_value_int_large:
  assumes "2 ^ 53 \<le> k" "k < 2 ^ 1023"
  shows "\<exists>n. numeric_value (PInt k) = Inr n \<and> 2 ^ 53 \<le> n"
proof -
  let ?e = "bitlen k - 1"
  let ?q = "nat (?e - 52)"
  have "(0::int) < 2 ^ 53" by simp
  with assms(1) have a: "0 < k" by linarith
  have e: "ilog2_ratio k 1 = ?e" using a by (rule ilog2_ratio_one)
  from bitlen_bounds [OF a] have lo: "2 ^ nat ?e \<le> k" and hi: "k < 2 ^ nat (bitlen k)"
    by simp_all
  from assms(1) hi have lt: "(2::int) ^ 53 < 2 ^ nat (bitlen k)" by linarith
  have b: "53 < bitlen k"
  proof (rule ccontr)
    assume "\<not> 53 < bitlen k"
    then have "nat (bitlen k) \<le> 53" by simp
    then have "(2::int) ^ nat (bitlen k) \<le> 2 ^ 53"
      by (intro power_increasing) simp_all
    with lt show False by linarith
  qed
  have q: "max (?e - 52) (- 1074) = ?e - 52" using b by simp
  have nq: "nat (- (?e - 52)) = 0" using b by simp
  let ?m = "div_half_even k (2 ^ ?q)"
  have "real_of_int k < 2 ^ 1023 * real_of_int 1"
    using assms(2) by (simp flip: of_int_less_iff)
  from round_double_finite [OF a _ this, of False] obtain m' q'
    where fin: "round_double False k 1 = Finite False m' q'" by auto
  from a have k0: "k \<noteq> 0" by simp
  from round_double_Finite(1) [OF k0 fin] have q': "q' = ?e - 52"
    by (simp only: e q)
  from round_double_Finite(2) [OF k0 fin] have "m' = div_half_even (k * 2 ^ 0) (1 * 2 ^ ?q)"
    by (simp only: q' nq)
  then have "m' = ?m" by simp
  with fin q' have rd: "round_double False k 1 = Finite False ?m (?e - 52)"
    by simp
  have "nat ?e = 52 + ?q" using b by simp
  then have "(2::int) ^ nat ?e = 2 ^ (52 + ?q)" by (simp only:)
  also have "\<dots> = 2 ^ 52 * 2 ^ ?q" by (rule power_add)
  finally have "(2::int) ^ nat ?e = 2 ^ 52 * 2 ^ ?q" .
  with lo have "2 ^ 52 * 2 ^ ?q \<le> k" by simp
  then have "(2 ^ 52 * 2 ^ ?q) div 2 ^ ?q \<le> k div 2 ^ ?q"
    by (intro zdiv_mono1) simp_all
  then have "2 ^ 52 \<le> k div 2 ^ ?q"
    by simp
  moreover have "k div 2 ^ ?q \<le> ?m"
    using a by (intro div_half_even_bounds) simp_all
  ultimately have m52: "2 ^ 52 \<le> ?m" by linarith
  have "1 \<le> ?q" using b by simp
  then have "(2::int) ^ 1 \<le> 2 ^ ?q" by (intro power_increasing) simp_all
  with m52 have "2 ^ 52 * 2 ^ 1 \<le> ?m * 2 ^ ?q"
    by (intro mult_mono) simp_all
  then have big: "2 ^ 53 \<le> ?m * 2 ^ ?q" by simp
  have "int_of_float (Finite False ?m (?e - 52))
        = Inr (signed False (?m * 2 ^ ?q div 2 ^ nat (- (?e - 52))))"
    by (simp only: int_of_float.simps)
  also have "\<dots> = Inr (?m * 2 ^ ?q)"
    by (simp only: nq power_0 div_by_1 signed_def if_False)
  finally have "int_of_float (Finite False ?m (?e - 52)) = Inr (?m * 2 ^ ?q)" .
  moreover have "float_of_int k = Inr (Finite False ?m (?e - 52))"
    using a rd by (simp add: float_of_int_def)
  ultimately have "numeric_value (PInt k) = Inr (?m * 2 ^ ?q)"
    by (simp only: numeric_value_def py_float.simps bind_e_def sum.case)
  with big show ?thesis by blast
qed

text \<open>
  A separator beside a number: \<open>s.strip()\<close> removes it, \<open>int(s)\<close> and \<open>float(s)\<close> raise
  \<open>ValueError\<close>, so that a count cannot be read and \<open>format_number\<close> gives \<open>0\<close>. The
  no-break space is skipped by all three.
\<close>

lemma separators_beside_numbers:
  "py_strip [CHR 0x1F, CHR ''1'', CHR ''2''] = ''12''
   \<and> parse_int [CHR 0x1F, CHR ''1'', CHR ''2''] = Inl ValueError
   \<and> parse_int [CHR ''1'', CHR ''2'', CHR 0x1C] = Inl ValueError
   \<and> parse_float [CHR 0x1C, CHR ''5''] = Inl ValueError
   \<and> format_number (PStr [CHR 0x1C, CHR ''5'']) = ''0''
   \<and> int_field (PDict [(''viewCount'', PStr [CHR 0x1F, CHR ''1'', CHR ''2''])]) ''viewCount'' 0
       = Inl ValueError
   \<and> calculate_video_engagement (PDict [(''viewCount'', PStr [CHR 0x1F, CHR ''1'', CHR ''2''])])
       = Inl ValueError
   \<and> parse_int [CHR 0xA0, CHR ''1'', CHR ''2'', CHR 0x85] = Inr 12
   \<and> parse_int '' 12 '' = Inr 12
   \<and> format_number (PStr [CHR 0xA0, CHR ''5'', CHR 0x09]) = ''5''"
  by code_simp

text \<open>
  A count that cannot be read fails the whole computation: no channel metrics, and for a
  video the failure result, also when the rest of the resource is complete.
\<close>

lemma unreadable_count_fails:
  "video_views (example_summary [CHR 0x1F, CHR ''1'', CHR ''2''] ''3'' ''2'') = Inl ValueError
   \<and> calculate_channel_engagement [example_summary [CHR 0x1F, CHR ''1'', CHR ''2''] ''3'' ''2'']
        (PDict [(''subscriberCount'', PStr ''200'')]) = Inl ValueError
   \<and> video_result (PDict [(''viewCount'', PStr [CHR 0x1F, CHR ''1'', CHR ''2''])])
        example_snippet example_details [] = Inl ValueError
   \<and> get_video_stats
        (\<lambda>calls q. Inr (PDict [(''items'', PList [PDict
           [(''statistics'', PDict [(''viewCount'', PStr [CHR 0x1F, CHR ''1'', CHR ''2''])]),
            (''snippet'', example_snippet),
            (''contentDetails'', example_details)]])]))
        ''https://youtu.be/ABCDEFGHIJK'' []
      = (PDict [(''success'', PBool False), (''error'', PStr ''Could not fetch video data'')],
         [Videos ''statistics,snippet,contentDetails'' (PStr ''ABCDEFGHIJK''),
          CommentThreads ''ABCDEFGHIJK'' 50])"
  by code_simp

lemma parse_int_digit_limit:
  assumes "take_sign (strip_number s) = (neg, u)" "scan_digits u = (ds, r)"
    and "length ds > 4300"
  shows "parse_int s = Inl ValueError"
  using assms by (simp add: parse_int_def max_str_digits_def)

text \<open>\<open>f"{0:.2f}"\<close>\<close>

lemma format_zero: "format_fixed 2 (Finite False 0 0) = ''0.00''"
  by code_simp

section \<open>Facts about the engagement of a video\<close>

text \<open>
  Claim C5, as stated for all non-negative counts, fails beyond the range of a float:
  with one view and \<open>2\<^sup>1\<^sup>0\<^sup>2\<^sup>4\<close> likes the true division \<open>likes / views\<close> raises
  \<open>OverflowError\<close>, and no ratio is returned.
\<close>

theorem video_engagement_overflow:
  "calculate_video_engagement
     (PDict [(''viewCount'', PInt 1), (''likeCount'', PInt (2 ^ 1024)), (''commentCount'', PInt 0)])
   = Inl OverflowError"
  by code_simp

lemma video_engagement_of_zero:
  "views \<le> 0 \<Longrightarrow> video_engagement_of views likes comments = Inr (PDict
              [(''like_ratio'', PStr ''0.00%''),
               (''comment_ratio'', PStr ''0.00%''),
               (''total_engagement'', PStr ''0.00%''),
               (''likes_per_view'', PStr ''0'')])"
  unfolding video_engagement_of_def format_zero by simp

lemma video_engagement_of_pos:
  assumes "0 < views" "true_div_int likes views = Inr lq" "true_div_int comments views = Inr cq"
  shows "video_engagement_of views likes comments = Inr (PDict
                 [(''like_ratio'', PStr (format_fixed 2 (float_mul lq float_100) @ ''%'')),
                  (''comment_ratio'', PStr (format_fixed 2 (float_mul cq float_100) @ ''%'')),
                  (''total_engagement'', PStr (format_fixed 2
                      (float_add (float_mul lq float_100) (float_mul cq float_100)) @ ''%'')),
                  (''likes_per_view'', PStr (format_fixed 4 lq))])"
  unfolding video_engagement_of_def using assms by (simp add: bind_e_def Let_def)

lemma calculate_video_engagement_counts:
  assumes "int_field stats ''viewCount'' 0 = Inr views"
    and "int_field stats ''likeCount'' 0 = Inr likes"
    and "int_field stats ''commentCount'' 0 = Inr comments"
  shows "calculate_video_engagement stats = video_engagement_of views likes comments"
  unfolding calculate_video_engagement_def using assms by (simp add: bind_e_def)

lemma below_2_1023:
  assumes "0 < b" "a < 2 ^ 1023"
  shows "real_of_int a < 2 ^ 1023 * real_of_int b"
proof -
  from assms(2) have "real_of_int a < real_of_int (2 ^ 1023)"
    by (simp only: of_int_less_iff)
  then have "real_of_int a < 2 ^ 1023 * 1" by simp
  also have "\<dots> \<le> 2 ^ 1023 * real_of_int b"
    using assms(1) by (intro mult_left_mono) simp_all
  finally show ?thesis .
qed

text \<open>
  Claim C5, amended. Let \<open>views\<close>, \<open>likes\<close> and \<open>comments\<close> be the counts read from the
  statistics, the last two non-negative. With no views the three ratios are \<open>0.00%\<close> and
  \<open>likes_per_view\<close> is the string \<open>0\<close>. With views, and whenever the quotients
  \<open>likes / views\<close> and \<open>comments / views\<close> are within the range of a float, \<open>like_ratio\<close>
  is \<open>likes / views * 100\<close>, \<open>comment_ratio\<close> is \<open>comments / views * 100\<close>,
  \<open>total_engagement\<close> is their sum, each with two decimals and a percent sign, and
  \<open>likes_per_view\<close> is \<open>likes / views\<close> with four decimals, all in float arithmetic. The
  quotients are within the range for all counts below \<open>2\<^sup>1\<^sup>0\<^sup>2\<^sup>3\<close>. For 100 views, 10
  likes and 5 comments the result is \<open>10.00%\<close>, \<open>5.00%\<close>, \<open>15.00%\<close>, \<open>0.1000\<close>.
\<close>

theorem video_engagement_formulas:
  assumes "int_field stats ''viewCount'' 0 = Inr views"
    and "int_field stats ''likeCount'' 0 = Inr likes"
    and "int_field stats ''commentCount'' 0 = Inr comments"
    and "0 \<le> likes" and "0 \<le> comments"
  shows "(views = 0 \<longrightarrow>
            calculate_video_engagement stats = Inr (PDict
              [(''like_ratio'', PStr ''0.00%''),
               (''comment_ratio'', PStr ''0.00%''),
               (''total_engagement'', PStr ''0.00%''),
               (''likes_per_view'', PStr ''0'')]))
       \<and> (0 < views \<longrightarrow>
            (\<forall>lq cq. true_div_int likes views = Inr lq \<and> true_div_int comments views = Inr cq \<longrightarrow>
               calculate_video_engagement stats = Inr (PDict
                 [(''like_ratio'', PStr (format_fixed 2 (float_mul lq float_100) @ ''%'')),
                  (''comment_ratio'', PStr (format_fixed 2 (float_mul cq float_100) @ ''%'')),
                  (''total_engagement'', PStr (format_fixed 2
                      (float_add (float_mul lq float_100) (float_mul cq float_100)) @ ''%'')),
                  (''likes_per_view'', PStr (format_fixed 4 lq))])))
       \<and> (0 < views \<and> likes < 2 ^ 1023 \<and> comments < 2 ^ 1023 \<longrightarrow>
            (\<exists>lq cq. true_div_int likes views = Inr lq \<and> true_div_int comments views = Inr cq))
       \<and> calculate_video_engagement
            (PDict [(''viewCount'', PInt 100), (''likeCount'', PInt 10), (''commentCount'', PInt 5)])
          = Inr (PDict
              [(''like_ratio'', PStr ''10.00%''),
               (''comment_ratio'', PStr ''5.00%''),
               (''total_engagement'', PStr ''15.00%''),
               (''likes_per_view'', PStr ''0.1000'')])"
proof -
  note eq = calculate_video_engagement_counts [OF assms(1-3)]
  have zero: "views = 0 \<longrightarrow>
            calculate_video_engagement stats = Inr (PDict
              [(''like_ratio'', PStr ''0.00%''),
               (''comment_ratio'', PStr ''0.00%''),
               (''total_engagement'', PStr ''0.00%''),
               (''likes_per_view'', PStr ''0'')])"
  proof
    assume "views = 0"
    then have "views \<le> 0" by simp
    from video_engagement_of_zero [OF this, of likes comments]
    show "calculate_video_engagement stats = Inr (PDict
              [(''like_ratio'', PStr ''0.00%''),
               (''comment_ratio'', PStr ''0.00%''),
               (''total_engagement'', PStr ''0.00%''),
               (''likes_per_view'', PStr ''0'')])"
      by (simp only: eq)
  qed
  have pos: "0 < views \<longrightarrow>
            (\<forall>lq cq. true_div_int likes views = Inr lq \<and> true_div_int comments views = Inr cq \<longrightarrow>
               calculate_video_engagement stats = Inr (PDict
                 [(''like_ratio'', PStr (format_fixed 2 (float_mul lq float_100) @ ''%'')),
                  (''comment_ratio'', PStr (format_fixed 2 (float_mul cq float_100) @ ''%'')),
                  (''total_engagement'', PStr (format_fixed 2
                      (float_add (float_mul lq float_100) (float_mul cq float_100)) @ ''%'')),
                  (''likes_per_view'', PStr (format_fixed 4 lq))]))"
    using video_engagement_of_pos [of views likes _ comments] by (simp only: eq) blast
  have range: "0 < views \<and> likes < 2 ^ 1023 \<and> comments < 2 ^ 1023 \<longrightarrow>
            (\<exists>lq cq. true_div_int likes views = Inr lq \<and> true_div_int comments views = Inr cq)"
  proof
    assume a: "0 < views \<and> likes < 2 ^ 1023 \<and> comments < 2 ^ 1023"
    then have "real_of_int likes < 2 ^ 1023 * real_of_int views"
      and "real_of_int comments < 2 ^ 1023 * real_of_int views"
      by (simp_all add: below_2_1023)
    with a assms(4,5) show "\<exists>lq cq. true_div_int likes views = Inr lq \<and> true_div_int comments views = Inr cq"
      using true_div_int_finite [of likes views] true_div_int_finite [of comments views] by blast
  qed
  have example: "calculate_video_engagement
            (PDict [(''viewCount'', PInt 100), (''likeCount'', PInt 10), (''commentCount'', PInt 5)])
          = Inr (PDict
              [(''like_ratio'', PStr ''10.00%''),
               (''comment_ratio'', PStr ''5.00%''),
               (''total_engagement'', PStr ''15.00%''),
               (''likes_per_view'', PStr ''0.1000'')])"
    by code_simp
  from zero pos range example show ?thesis by (intro conjI)
qed

theorem video_engagement_formulas_witness:
  "calculate_video_engagement
     (PDict [(''viewCount'', PStr ''100''), (''likeCount'', PStr ''10''), (''commentCount'', PStr ''5'')])
   = Inr (PDict
       [(''like_ratio'', PStr ''10.00%''),
        (''comment_ratio'', PStr ''5.00%''),
        (''total_engagement'', PStr ''15.00%''),
        (''likes_per_view'', PStr ''0.1000'')])
   \<and> calculate_video_engagement (PDict [(''likeCount'', PStr ''5''), (''commentCount'', PStr ''2'')])
   = Inr (PDict
       [(''like_ratio'', PStr ''0.00%''),
        (''comment_ratio'', PStr ''0.00%''),
        (''total_engagement'', PStr ''0.00%''),
        (''likes_per_view'', PStr ''0'')])"
proof -
  let ?s1 = "PDict [(''viewCount'', PStr ''100''), (''likeCount'', PStr ''10''), (''commentCount'', PStr ''5'')]"
  let ?s2 = "PDict [(''likeCount'', PStr ''5''), (''commentCount'', PStr ''2'')]"
  have v1: "int_field ?s1 ''viewCount'' 0 = Inr 100" by code_simp
  have l1: "int_field ?s1 ''likeCount'' 0 = Inr 10" by code_simp
  have c1: "int_field ?s1 ''commentCount'' 0 = Inr 5" by code_simp
  have v2: "int_field ?s2 ''viewCount'' 0 = Inr 0" by code_simp
  have l2: "int_field ?s2 ''likeCount'' 0 = Inr 5" by code_simp
  have c2: "int_field ?s2 ''commentCount'' 0 = Inr 2" by code_simp
  have lq: "true_div_int 10 100 = Inr (Finite False 7205759403792794 (- 56))" by code_simp
  have cq: "true_div_int 5 100 = Inr (Finite False 7205759403792794 (- 57))" by code_simp
  have f1: "format_fixed 2 (float_mul (Finite False 7205759403792794 (- 56)) float_100) = ''10.00''"
    by code_simp
  have f2: "format_fixed 2 (float_mul (Finite False 7205759403792794 (- 57)) float_100) = ''5.00''"
    by code_simp
  have f3: "format_fixed 2 (float_add (float_mul (Finite False 7205759403792794 (- 56)) float_100)
              (float_mul (Finite False 7205759403792794 (- 57)) float_100)) = ''15.00''"
    by code_simp
  have f4: "format_fixed 4 (Finite False 7205759403792794 (- 56)) = ''0.1000''"
    by code_simp
  have p: "(0::int) \<le> 10" "(0::int) \<le> 5" "(0::int) \<le> 2" by simp_all
  have a: "calculate_video_engagement ?s1 = Inr (PDict
       [(''like_ratio'', PStr ''10.00%''),
        (''comment_ratio'', PStr ''5.00%''),
        (''total_engagement'', PStr ''15.00%''),
        (''likes_per_view'', PStr ''0.1000'')])"
    using video_engagement_formulas [OF v1 l1 c1 p(1,2)] lq cq
    by (simp only: f1 f2 f3 f4) simp
  have b: "calculate_video_engagement ?s2 = Inr (PDict
       [(''like_ratio'', PStr ''0.00%''),
        (''comment_ratio'', PStr ''0.00%''),
        (''total_engagement'', PStr ''0.00%''),
        (''likes_per_view'', PStr ''0'')])"
    using video_engagement_formulas [OF v2 l2 c2 p(2,3)] by simp
  from a b show ?thesis by (rule conjI)
qed

section \<open>Facts about the formatting of numbers\<close>

lemma format_number_fail:
  "numeric_value x = Inl e \<Longrightarrow> format_number x = ''0''"
  by (auto simp: numeric_value_def format_number_def format_number_body_def bind_e_def
      split: sum.splits)

lemma format_number_value:
  assumes "numeric_value x = Inr n"
  shows "format_number x =
     (case (if n \<ge> 1000000000 then
              bind_e (true_div_int n 1000000000) (\<lambda>q. Inr (format_fixed 1 q @ ''B''))
            else if n \<ge> 1000000 then
              bind_e (true_div_int n 1000000) (\<lambda>q. Inr (format_fixed 1 q @ ''M''))
            else if n \<ge> 1000 then
              bind_e (true_div_int n 1000) (\<lambda>q. Inr (format_fixed 1 q @ ''K''))
            else Inr (str_int n)) of Inl e \<Rightarrow> ''0'' | Inr s \<Rightarrow> s)"
proof -
  from assms obtain f where "py_float x = Inr f" "int_of_float f = Inr n"
    by (auto simp: numeric_value_def bind_e_def split: sum.splits)
  then show ?thesis
    unfolding format_number_def format_number_body_def by (simp add: bind_e_def)
qed

lemma quotient_exists:
  assumes "0 \<le> n" "\<bar>n\<bar> < 2 ^ 1024" "2 \<le> b"
  shows "\<exists>q. true_div_int n b = Inr q"
proof -
  from assms(1,2) have "n < 2 ^ 1024" by simp
  then have "real_of_int n < real_of_int (2 ^ 1024)" by (simp only: of_int_less_iff)
  also have "real_of_int (2 ^ 1024) = 2 ^ 1023 * 2" by simp
  also have "\<dots> \<le> 2 ^ 1023 * real_of_int b"
    using assms(3) by (intro mult_left_mono) simp_all
  finally have "real_of_int n < 2 ^ 1023 * real_of_int b" .
  with assms(1,3) show ?thesis by (intro true_div_int_finite) simp_all
qed

text \<open>
  Claim C6, as stated for every input, fails beyond the range of a float: the integer
  \<open>2\<^sup>1\<^sup>0\<^sup>2\<^sup>4\<close> is at least \<open>10\<^sup>9\<close>, but \<open>float(num)\<close> raises \<open>OverflowError\<close> and the
  result is \<open>0\<close>, not a number of billions.
\<close>

theorem format_number_beyond_float:
  "(1000000000::int) \<le> 2 ^ 1024 \<and> format_number (PInt (2 ^ 1024)) = ''0''"
  by code_simp

text \<open>
  Claim C6, amended. \<open>format_number\<close> never raises: it returns a string for every input
  (a float being a double). Let \<open>n\<close> be \<open>int(float(num))\<close>. When that conversion fails (a
  value that is not a number, a malformed string, \<open>nan\<close>, an infinity, an integer beyond
  the range of a float), the result is \<open>0\<close>. Otherwise \<open>n \<ge> 10\<^sup>9\<close> is rendered as
  \<open>n / 10\<^sup>9\<close> with one decimal and \<open>B\<close>, \<open>n \<ge> 10\<^sup>6\<close> as \<open>n / 10\<^sup>6\<close> with \<open>M\<close>,
  \<open>n \<ge> 10\<^sup>3\<close> as \<open>n / 10\<^sup>3\<close> with \<open>K\<close> (these divisions never fail), and a smaller \<open>n\<close> as
  the integer itself. For an integer input below \<open>2\<^sup>5\<^sup>3\<close> in magnitude \<open>n\<close> is the input;
  for one from \<open>2\<^sup>5\<^sup>3\<close> up to \<open>2\<^sup>1\<^sup>0\<^sup>2\<^sup>3\<close> the conversion succeeds with \<open>n \<ge> 10\<^sup>9\<close>. The
  five examples of the claim hold.
\<close>

theorem format_number_cases:
  assumes "float_in_range x"
  shows "(\<forall>e. numeric_value x = Inl e \<longrightarrow> format_number x = ''0'')
       \<and> (\<forall>n. numeric_value x = Inr n \<longrightarrow>
            (1000000000 \<le> n \<longrightarrow>
               (\<exists>q. true_div_int n 1000000000 = Inr q
                     \<and> format_number x = format_fixed 1 q @ ''B''))
          \<and> (1000000 \<le> n \<and> n < 1000000000 \<longrightarrow>
               (\<exists>q. true_div_int n 1000000 = Inr q
                     \<and> format_number x = format_fixed 1 q @ ''M''))
          \<and> (1000 \<le> n \<and> n < 1000000 \<longrightarrow>
               (\<exists>q. true_div_int n 1000 = Inr q
                     \<and> format_number x = format_fixed 1 q @ ''K''))
          \<and> (n < 1000 \<longrightarrow> format_number x = str_int n))
       \<and> (\<forall>k. \<bar>k\<bar> < 2 ^ 53 \<longrightarrow> numeric_value (PInt k) = Inr k)
       \<and> (\<forall>k. 2 ^ 53 \<le> k \<and> k < 2 ^ 1023 \<longrightarrow>
            (\<exists>n. numeric_value (PInt k) = Inr n \<and> 1000000000 \<le> n))
       \<and> format_number (PInt 999) = ''999''
       \<and> format_number (PInt 1500) = ''1.5K''
       \<and> format_number (PInt 2300000) = ''2.3M''
       \<and> format_number (PInt 1000000000) = ''1.0B''
       \<and> format_number (PStr ''abc'') = ''0''"
proof -
  have fail: "\<forall>e. numeric_value x = Inl e \<longrightarrow> format_number x = ''0''"
    by (simp add: format_number_fail)
  have val: "\<forall>n. numeric_value x = Inr n \<longrightarrow>
            (1000000000 \<le> n \<longrightarrow>
               (\<exists>q. true_div_int n 1000000000 = Inr q
                     \<and> format_number x = format_fixed 1 q @ ''B''))
          \<and> (1000000 \<le> n \<and> n < 1000000000 \<longrightarrow>
               (\<exists>q. true_div_int n 1000000 = Inr q
                     \<and> format_number x = format_fixed 1 q @ ''M''))
          \<and> (1000 \<le> n \<and> n < 1000000 \<longrightarrow>
               (\<exists>q. true_div_int n 1000 = Inr q
                     \<and> format_number x = format_fixed 1 q @ ''K''))
          \<and> (n < 1000 \<longrightarrow> format_number x = str_int n)"
  proof (intro allI impI)
    fix n
    assume nv: "numeric_value x = Inr n"
    note fv = format_number_value [OF nv]
    from numeric_value_bound [OF assms nv] have bound: "\<bar>n\<bar> < 2 ^ 1024" .
    have b: "1000000000 \<le> n \<longrightarrow>
               (\<exists>q. true_div_int n 1000000000 = Inr q
                     \<and> format_number x = format_fixed 1 q @ ''B'')"
    proof
      assume h: "1000000000 \<le> n"
      then obtain q where q: "true_div_int n 1000000000 = Inr q"
        using quotient_exists [of n 1000000000] bound by auto
      with h fv have "format_number x = format_fixed 1 q @ ''B''"
        by (simp add: bind_e_def)
      with q show "\<exists>q. true_div_int n 1000000000 = Inr q
                     \<and> format_number x = format_fixed 1 q @ ''B''" by blast
    qed
    have m: "1000000 \<le> n \<and> n < 1000000000 \<longrightarrow>
               (\<exists>q. true_div_int n 1000000 = Inr q
                     \<and> format_number x = format_fixed 1 q @ ''M'')"
    proof
      assume h: "1000000 \<le> n \<and> n < 1000000000"
      then obtain q where q: "true_div_int n 1000000 = Inr q"
        using quotient_exists [of n 1000000] bound by auto
      with h fv have "format_number x = format_fixed 1 q @ ''M''"
        by (simp add: bind_e_def)
      with q show "\<exists>q. true_div_int n 1000000 = Inr q
                     \<and> format_number x = format_fixed 1 q @ ''M''" by blast
    qed
    have k: "1000 \<le> n \<and> n < 1000000 \<longrightarrow>
               (\<exists>q. true_div_int n 1000 = Inr q
                     \<and> format_number x = format_fixed 1 q @ ''K'')"
    proof
      assume h: "1000 \<le> n \<and> n < 1000000"
      then obtain q where q: "true_div_int n 1000 = Inr q"
        using quotient_exists [of n 1000] bound by auto
      with h fv have "format_number x = format_fixed 1 q @ ''K''"
        by (simp add: bind_e_def)
      with q show "\<exists>q. true_div_int n 1000 = Inr q
                     \<and> format_number x = format_fixed 1 q @ ''K''" by blast
    qed
    have p: "n < 1000 \<longrightarrow> format_number x = str_int n"
      using fv by simp
    from b m k p show "(1000000000 \<le> n \<longrightarrow>
               (\<exists>q. true_div_int n 1000000000 = Inr q
                     \<and> format_number x = format_fixed 1 q @ ''B''))
          \<and> (1000000 \<le> n \<and> n < 1000000000 \<longrightarrow>
               (\<exists>q. true_div_int n 1000000 = Inr q
                     \<and> format_number x = format_fixed 1 q @ ''M''))
          \<and> (1000 \<le> n \<and> n < 1000000 \<longrightarrow>
               (\<exists>q. true_div_int n 1000 = Inr q
                     \<and> format_number x = format_fixed 1 q @ ''K''))
          \<and> (n < 1000 \<longrightarrow> format_number x = str_int n)"
      by (intro conjI)
  qed
  have small: "\<forall>k. \<bar>k\<bar> < 2 ^ 53 \<longrightarrow> numeric_value (PInt k) = Inr k"
    using numeric_value_int_exact by blast
  have large: "\<forall>k. 2 ^ 53 \<le> k \<and> k < 2 ^ 1023 \<longrightarrow>
            (\<exists>n. numeric_value (PInt k) = Inr n \<and> 1000000000 \<le> n)"
  proof (intro allI impI)
    fix k :: int
    assume "2 ^ 53 \<le> k \<and> k < 2 ^ 1023"
    then obtain n where "numeric_value (PInt k) = Inr n" and "2 ^ 53 \<le> n"
      using numeric_value_int_large [of k] by blast
    moreover have "(1000000000::int) \<le> 2 ^ 53" by simp
    ultimately show "\<exists>n. numeric_value (PInt k) = Inr n \<and> 1000000000 \<le> n"
      by (intro exI [of _ n]) linarith
  qed
  have e1: "format_number (PInt 999) = ''999''" by code_simp
  have e2: "format_number (PInt 1500) = ''1.5K''" by code_simp
  have e3: "format_number (PInt 2300000) = ''2.3M''" by code_simp
  have e4: "format_number (PInt 1000000000) = ''1.0B''" by code_simp
  have e5: "format_number (PStr ''abc'') = ''0''" by code_simp
  from fail val small large e1 e2 e3 e4 e5 show ?thesis by (intro conjI)
qed

theorem format_number_cases_witness:
  "format_number (PStr ''12345'') = ''12.3K''
   \<and> format_number (PStr ''1,234'') = ''0''
   \<and> format_number PNone = ''0''
   \<and> numeric_value (PInt (- 5000)) = Inr (- 5000)
   \<and> format_number (PInt (- 5000)) = ''-5000''"
proof -
  have r1: "float_in_range (PStr ''12345'')" and r2: "float_in_range (PStr ''1,234'')"
    and r3: "float_in_range PNone" and r4: "float_in_range (PInt (- 5000))"
    by simp_all
  have n1: "numeric_value (PStr ''12345'') = Inr 12345" by code_simp
  have n2: "numeric_value (PStr ''1,234'') = Inl ValueError" by code_simp
  have n3: "numeric_value PNone = Inl TypeError" by code_simp
  have n4: "numeric_value (PInt (- 5000)) = Inr (- 5000)"
    using format_number_cases [OF r4] by simp
  have q1: "true_div_int 12345 1000 = Inr (Finite False 6949617174986097 (- 49))" by code_simp
  have f1: "format_fixed 1 (Finite False 6949617174986097 (- 49)) = ''12.3''" by code_simp
  have s4: "str_int (- 5000) = ''-5000''" by code_simp
  have a: "format_number (PStr ''12345'') = ''12.3K''"
    using format_number_cases [OF r1] n1 q1 f1 by simp
  have b: "format_number (PStr ''1,234'') = ''0''"
    using format_number_cases [OF r2] n2 by simp
  have c: "format_number PNone = ''0''"
    using format_number_cases [OF r3] n3 by simp
  have d: "format_number (PInt (- 5000)) = ''-5000''"
    using format_number_cases [OF r4] n4 s4 by simp
  from a b c n4 d show ?thesis by (intro conjI)
qed

section \<open>Facts about the engagement of a channel\<close>

lemma sum_ints_sum_list:
  assumes "\<forall>v \<in> set vs. f v = Inr (g v)"
  shows "sum_ints f vs = Inr (sum_list (map g vs))"
  using assms by (induction vs) (simp_all add: bind_e_def)

lemma channel_engagement_of_pos:
  assumes "true_div_int total_views n = Inr avg" "0 < subscriber_count"
    and "true_div_int (total_likes + total_comments) subscriber_count = Inr q"
  shows "channel_engagement_of total_views total_likes total_comments n subscriber_count
         = Inr (PDict
             [(''avg_views_per_video'', PStr (format_number (PFloat avg))),
              (''engagement_rate'', PStr (format_fixed 2 (float_mul q float_100) @ ''%'')),
              (''total_recent_views'', PStr (format_number (PInt total_views))),
              (''total_recent_likes'', PStr (format_number (PInt total_likes))),
              (''total_recent_comments'', PStr (format_number (PInt total_comments)))])"
  unfolding channel_engagement_of_def using assms by (simp add: bind_e_def)

lemma channel_engagement_of_zero:
  assumes "true_div_int total_views n = Inr avg" "subscriber_count \<le> 0"
  shows "channel_engagement_of total_views total_likes total_comments n subscriber_count
         = Inr (PDict
             [(''avg_views_per_video'', PStr (format_number (PFloat avg))),
              (''engagement_rate'', PStr ''0.00%''),
              (''total_recent_views'', PStr (format_number (PInt total_views))),
              (''total_recent_likes'', PStr (format_number (PInt total_likes))),
              (''total_recent_comments'', PStr (format_number (PInt total_comments)))])"
  unfolding channel_engagement_of_def using assms
  by (simp add: bind_e_def format_zero del: format_fixed.simps)

text \<open>
  Claim C4, as stated, fails without subscribers: for one recent video with 3 likes and
  2 comments and a subscriber count of 0 the engagement rate is \<open>0.00%\<close>, where
  \<open>(total_likes + total_comments) / max(subscriber_count, 1) * 100\<close> is \<open>500.00%\<close>. And
  beyond the range of a float a true division raises: with \<open>2\<^sup>1\<^sup>0\<^sup>2\<^sup>4\<close> views there are no
  metrics.
\<close>

theorem zero_subscribers_rate:
  "sum_ints (video_count ''likes'') [example_summary ''10'' ''3'' ''2''] = Inr 3
   \<and> sum_ints (video_count ''comments'') [example_summary ''10'' ''3'' ''2''] = Inr 2
   \<and> int_field (PDict [(''subscriberCount'', PStr ''0'')]) ''subscriberCount'' 1 = Inr 0
   \<and> bind_e (calculate_channel_engagement [example_summary ''10'' ''3'' ''2'']
               (PDict [(''subscriberCount'', PStr ''0'')]))
        (\<lambda>metrics. py_getitem metrics ''engagement_rate'') = Inr (PStr ''0.00%'')
   \<and> spec_engagement_rate 3 2 0 = Inr ''500.00%''
   \<and> calculate_channel_engagement
        [PDict [(''raw_data'', PDict [(''views'', PInt (2 ^ 1024))])]]
        (PDict [(''subscriberCount'', PStr ''1'')]) = Inl OverflowError"
  by code_simp

text \<open>
  Claim C4, amended. For a non-empty list of recent videos whose counts can be read, with
  totals \<open>total_views\<close>, \<open>total_likes\<close>, \<open>total_comments\<close>, and whenever the quotients are
  within the range of a float: \<open>avg_views_per_video\<close> is \<open>total_views / count\<close> as a
  formatted number; the engagement rate is
  \<open>(total_likes + total_comments) / subscriber_count * 100\<close> with two decimals and a percent
  sign for a positive subscriber count, and \<open>0.00%\<close> for a subscriber count of zero; the
  totals are formatted numbers. For an empty list the result is the empty dictionary.
\<close>

theorem channel_engagement_formulas:
  assumes "recent_videos \<noteq> []"
    and "\<forall>v \<in> set recent_videos.
           video_views v = Inr (views v) \<and> video_count ''likes'' v = Inr (likes v)
           \<and> video_count ''comments'' v = Inr (comments v)"
    and "int_field channel_stats ''subscriberCount'' 1 = Inr subscriber_count"
    and "true_div_int (sum_list (map views recent_videos)) (int (length recent_videos)) = Inr avg"
  shows "(0 < subscriber_count \<longrightarrow>
           (\<forall>q. true_div_int (sum_list (map likes recent_videos) + sum_list (map comments recent_videos))
                   subscriber_count = Inr q \<longrightarrow>
              calculate_channel_engagement recent_videos channel_stats = Inr (PDict
                [(''avg_views_per_video'', PStr (format_number (PFloat avg))),
                 (''engagement_rate'', PStr (format_fixed 2 (float_mul q float_100) @ ''%'')),
                 (''total_recent_views'', PStr (format_number (PInt (sum_list (map views recent_videos))))),
                 (''total_recent_likes'', PStr (format_number (PInt (sum_list (map likes recent_videos))))),
                 (''total_recent_comments'',
                    PStr (format_number (PInt (sum_list (map comments recent_videos)))))])))
       \<and> (subscriber_count = 0 \<longrightarrow>
              calculate_channel_engagement recent_videos channel_stats = Inr (PDict
                [(''avg_views_per_video'', PStr (format_number (PFloat avg))),
                 (''engagement_rate'', PStr ''0.00%''),
                 (''total_recent_views'', PStr (format_number (PInt (sum_list (map views recent_videos))))),
                 (''total_recent_likes'', PStr (format_number (PInt (sum_list (map likes recent_videos))))),
                 (''total_recent_comments'',
                    PStr (format_number (PInt (sum_list (map comments recent_videos)))))]))
       \<and> calculate_channel_engagement [] channel_stats = Inr (PDict [])"
proof -
  let ?tv = "sum_list (map views recent_videos)"
  let ?tl = "sum_list (map likes recent_videos)"
  let ?tc = "sum_list (map comments recent_videos)"
  have tv: "sum_ints video_views recent_videos = Inr ?tv"
    using assms(2) by (intro sum_ints_sum_list) simp
  have tl: "sum_ints (video_count ''likes'') recent_videos = Inr ?tl"
    using assms(2) by (intro sum_ints_sum_list) simp
  have tc: "sum_ints (video_count ''comments'') recent_videos = Inr ?tc"
    using assms(2) by (intro sum_ints_sum_list) simp
  have eq: "calculate_channel_engagement recent_videos channel_stats
            = channel_engagement_of ?tv ?tl ?tc (int (length recent_videos)) subscriber_count"
    unfolding calculate_channel_engagement_def using assms(1,3) tv tl tc
    by (simp add: bind_e_def)
  have pos: "0 < subscriber_count \<longrightarrow>
           (\<forall>q. true_div_int (?tl + ?tc) subscriber_count = Inr q \<longrightarrow>
              calculate_channel_engagement recent_videos channel_stats = Inr (PDict
                [(''avg_views_per_video'', PStr (format_number (PFloat avg))),
                 (''engagement_rate'', PStr (format_fixed 2 (float_mul q float_100) @ ''%'')),
                 (''total_recent_views'', PStr (format_number (PInt ?tv))),
                 (''total_recent_likes'', PStr (format_number (PInt ?tl))),
                 (''total_recent_comments'', PStr (format_number (PInt ?tc)))]))"
    using channel_engagement_of_pos [OF assms(4)] by (simp only: eq) blast
  have zero: "subscriber_count = 0 \<longrightarrow>
              calculate_channel_engagement recent_videos channel_stats = Inr (PDict
                [(''avg_views_per_video'', PStr (format_number (PFloat avg))),
                 (''engagement_rate'', PStr ''0.00%''),
                 (''total_recent_views'', PStr (format_number (PInt ?tv))),
                 (''total_recent_likes'', PStr (format_number (PInt ?tl))),
                 (''total_recent_comments'', PStr (format_number (PInt ?tc)))])"
  proof
    assume "subscriber_count = 0"
    then have "subscriber_count \<le> 0" by simp
    from channel_engagement_of_zero [OF assms(4) this]
    show "calculate_channel_engagement recent_videos channel_stats = Inr (PDict
                [(''avg_views_per_video'', PStr (format_number (PFloat avg))),
                 (''engagement_rate'', PStr ''0.00%''),
                 (''total_recent_views'', PStr (format_number (PInt ?tv))),
                 (''total_recent_likes'', PStr (format_number (PInt ?tl))),
                 (''total_recent_comments'', PStr (format_number (PInt ?tc)))])"
      by (simp only: eq)
  qed
  have empty: "calculate_channel_engagement [] channel_stats = Inr (PDict [])"
    by (simp add: calculate_channel_engagement_def)
  from pos zero empty show ?thesis by (intro conjI)
qed


theorem channel_engagement_formulas_witness:
  "calculate_channel_engagement
     [example_summary ''10'' ''3'' ''2'', example_summary ''20'' ''1'' ''0'']
     (PDict [(''subscriberCount'', PStr ''200'')])
   = Inr (PDict
       [(''avg_views_per_video'', PStr ''15''),
        (''engagement_rate'', PStr ''3.00%''),
        (''total_recent_views'', PStr ''30''),
        (''total_recent_likes'', PStr ''4''),
        (''total_recent_comments'', PStr ''2'')])
   \<and> calculate_channel_engagement
     [example_summary ''10'' ''3'' ''2'', example_summary ''20'' ''1'' ''0'']
     (PDict [(''subscriberCount'', PStr ''0'')])
   = Inr (PDict
       [(''avg_views_per_video'', PStr ''15''),
        (''engagement_rate'', PStr ''0.00%''),
        (''total_recent_views'', PStr ''30''),
        (''total_recent_likes'', PStr ''4''),
        (''total_recent_comments'', PStr ''2'')])"
proof -
  let ?rv = "[example_summary ''10'' ''3'' ''2'', example_summary ''20'' ''1'' ''0'']"
  let ?views = "\<lambda>v. projr (video_views v)"
  let ?likes = "\<lambda>v. projr (video_count ''likes'' v)"
  let ?comments = "\<lambda>v. projr (video_count ''comments'' v)"
  have v1: "video_views (example_summary ''10'' ''3'' ''2'') = Inr 10"
    and v2: "video_views (example_summary ''20'' ''1'' ''0'') = Inr 20"
    and l1: "video_count ''likes'' (example_summary ''10'' ''3'' ''2'') = Inr 3"
    and l2: "video_count ''likes'' (example_summary ''20'' ''1'' ''0'') = Inr 1"
    and c1: "video_count ''comments'' (example_summary ''10'' ''3'' ''2'') = Inr 2"
    and c2: "video_count ''comments'' (example_summary ''20'' ''1'' ''0'') = Inr 0"
    by code_simp+
  have ne: "?rv \<noteq> []" by simp
  have counts: "\<forall>v \<in> set ?rv.
           video_views v = Inr (?views v) \<and> video_count ''likes'' v = Inr (?likes v)
           \<and> video_count ''comments'' v = Inr (?comments v)"
    by (simp add: v1 v2 l1 l2 c1 c2)
  have tv: "sum_list (map ?views ?rv) = 30" by (simp add: v1 v2)
  have tl: "sum_list (map ?likes ?rv) = 4" by (simp add: l1 l2)
  have tc: "sum_list (map ?comments ?rv) = 2" by (simp add: c1 c2)
  have s200: "int_field (PDict [(''subscriberCount'', PStr ''200'')]) ''subscriberCount'' 1 = Inr 200"
    by code_simp
  have s0: "int_field (PDict [(''subscriberCount'', PStr ''0'')]) ''subscriberCount'' 1 = Inr 0"
    by code_simp
  have avg: "true_div_int (sum_list (map ?views ?rv)) (int (length ?rv))
             = Inr (Finite False 8444249301319680 (- 49))"
    unfolding tv by code_simp
  have q: "true_div_int 6 200 = Inr (Finite False 8646911284551352 (- 58))"
    by code_simp
  have f1: "format_number (PFloat (Finite False 8444249301319680 (- 49))) = ''15''" by code_simp
  have f2: "format_fixed 2 (float_mul (Finite False 8646911284551352 (- 58)) float_100) = ''3.00''"
    by code_simp
  have f3: "format_number (PInt 30) = ''30''" "format_number (PInt 4) = ''4''"
    "format_number (PInt 2) = ''2''" by code_simp+
  have a0: "calculate_channel_engagement ?rv (PDict [(''subscriberCount'', PStr ''200'')])
   = Inr (PDict
       [(''avg_views_per_video'', PStr ''15''),
        (''engagement_rate'', PStr (format_fixed 2
            (float_mul (Finite False 8646911284551352 (- 58)) float_100) @ ''%'')),
        (''total_recent_views'', PStr ''30''),
        (''total_recent_likes'', PStr ''4''),
        (''total_recent_comments'', PStr ''2'')])"
    using channel_engagement_formulas [OF ne counts s200 avg] q
    by (simp only: tv tl tc f1 f3) simp
  have a: "calculate_channel_engagement ?rv (PDict [(''subscriberCount'', PStr ''200'')])
   = Inr (PDict
       [(''avg_views_per_video'', PStr ''15''),
        (''engagement_rate'', PStr ''3.00%''),
        (''total_recent_views'', PStr ''30''),
        (''total_recent_likes'', PStr ''4''),
        (''total_recent_comments'', PStr ''2'')])"
    using a0 unfolding f2 by simp
  have b: "calculate_channel_engagement ?rv (PDict [(''subscriberCount'', PStr ''0'')])
   = Inr (PDict
       [(''avg_views_per_video'', PStr ''15''),
        (''engagement_rate'', PStr ''0.00%''),
        (''total_recent_views'', PStr ''30''),
        (''total_recent_likes'', PStr ''4''),
        (''total_recent_comments'', PStr ''2'')])"
    using channel_engagement_formulas [OF ne counts s0 avg]
    by (simp only: tv tl tc f1 f3)
  from a b show ?thesis by (rule conjI)
qed

end
